theory Spec2Isabelle
  imports Main
begin

chapter \<open>The program\<close>

section \<open>JavaScript strings\<close>

text \<open>
  The action is TypeScript run by Node. A JavaScript string is a sequence of UTF-16 code
  units; the model uses \<open>string\<close> (a list of 8-bit characters), that is the strings whose
  code units are all below 256. \<open>length\<close> is then the \<open>.length\<close> of the source and
  \<open>take n\<close> its \<open>slice(0, n)\<close> and \<open>substring(0, n)\<close>. Every character class of the
  source is written out on that range.
\<close>

definition squote :: char where
  "squote = CHR 0x27"

definition dquote :: char where
  "dquote = CHR 0x22"

text \<open>
  The class \<open>\s\<close> of a regular expression, which is also the set that \<open>trim\<close> and
  \<open>trimEnd\<close> strip (WhiteSpace and LineTerminator): TAB, LF, VT, FF, CR, SP and NBSP
  are its members below 256.
\<close>

definition is_space :: "char \<Rightarrow> bool" where
  "is_space c =
     (c = CHR 0x09 \<or> c = CHR 0x0A \<or> c = CHR 0x0B \<or> c = CHR 0x0C \<or> c = CHR 0x0D
      \<or> c = CHR 0x20 \<or> c = CHR 0xA0)"

definition js_trimStart :: "string \<Rightarrow> string" where
  "js_trimStart s = dropWhile is_space s"

definition js_trimEnd :: "string \<Rightarrow> string" where
  "js_trimEnd s = rev (dropWhile is_space (rev s))"

definition js_trim :: "string \<Rightarrow> string" where
  "js_trim s = js_trimEnd (js_trimStart s)"

text \<open>
  \<open>toLowerCase\<close> on code units below 256: the letters A to Z, and the accented capitals
  0xC0 to 0xDE but for the multiplication sign 0xD7, move up by 32.
\<close>

definition js_lower_char :: "char \<Rightarrow> char" where
  "js_lower_char c =
     (let n = (of_char c :: nat) in
      if (65 \<le> n \<and> n \<le> 90) \<or> (192 \<le> n \<and> n \<le> 222 \<and> n \<noteq> 215) then char_of (n + 32) else c)"

definition js_toLowerCase :: "string \<Rightarrow> string" where
  "js_toLowerCase s = map js_lower_char s"

text \<open>
  \<open>s.split(sep)\<close> for a separator of one character: every occurrence splits, and the
  empty string gives one empty piece.
\<close>

fun js_split :: "char \<Rightarrow> string \<Rightarrow> string list" where
  "js_split sep [] = [[]]"
| "js_split sep (c # cs) =
     (if c = sep then [] # js_split sep cs
      else (case js_split sep cs of
              [] \<Rightarrow> [[c]]
            | piece # pieces \<Rightarrow> (c # piece) # pieces))"

text \<open>\<open>xs[i]\<close> of an array: \<open>undefined\<close> (\<open>None\<close>) out of range.\<close>

fun js_index :: "'a list \<Rightarrow> nat \<Rightarrow> 'a option" where
  "js_index [] i = None"
| "js_index (x # xs) 0 = Some x"
| "js_index (x # xs) (Suc i) = js_index xs i"

text \<open>\<open>s.startsWith(p)\<close>, and \<open>s.replace(p, r)\<close> for a pattern and a replacement that are
  plain strings (the replacements of the source hold no \<open>$\<close>): the first occurrence only.\<close>

definition js_startsWith :: "string \<Rightarrow> string \<Rightarrow> bool" where
  "js_startsWith s p = (take (length p) s = p)"

fun js_replace :: "string \<Rightarrow> string \<Rightarrow> string \<Rightarrow> string" where
  "js_replace [] p r = (if p = [] then r else [])"
| "js_replace (c # cs) p r =
     (if js_startsWith (c # cs) p then r @ drop (length p) (c # cs)
      else c # js_replace cs p r)"

text \<open>
  A value of type \<open>string | undefined\<close> is a \<open>string option\<close>. It is truthy when it is a
  non-empty string; \<open>a || b\<close> is \<open>a\<close> when \<open>a\<close> is truthy and \<open>b\<close> otherwise; \<open>a ?? b\<close>
  is \<open>b\<close> only when \<open>a\<close> is \<open>undefined\<close>.
\<close>

fun js_truthy :: "string option \<Rightarrow> bool" where
  "js_truthy None = False"
| "js_truthy (Some s) = (s \<noteq> [])"

fun js_or :: "string option \<Rightarrow> string \<Rightarrow> string" where
  "js_or None b = b"
| "js_or (Some s) b = (if s = [] then b else s)"

fun js_nullish :: "string option \<Rightarrow> string \<Rightarrow> string" where
  "js_nullish None b = b"
| "js_nullish (Some s) b = s"

text \<open>A number in a template literal: the decimal digits of an integer.\<close>

definition digit_char :: "nat \<Rightarrow> char" where
  "digit_char d = ''0123456789'' ! d"

fun show_nat :: "nat \<Rightarrow> string" where
  "show_nat n = (if n < 10 then [digit_char n] else show_nat (n div 10) @ [digit_char (n mod 10)])"

declare show_nat.simps [simp del]

definition show_int :: "int \<Rightarrow> string" where
  "show_int i = (if i < 0 then CHR ''-'' # show_nat (nat (- i)) else show_nat (nat i))"

text \<open>\<open>parts.join(sep)\<close>.\<close>

fun js_join :: "string \<Rightarrow> string list \<Rightarrow> string" where
  "js_join sep [] = []"
| "js_join sep [x] = x"
| "js_join sep (x # y # ys) = x @ sep @ js_join sep (y # ys)"

section \<open>The template renderer: \<open>renderTemplate\<close>\<close>

text \<open>The class \<open>[a-zA-Z0-9_]\<close>.\<close>

definition is_word_char :: "char \<Rightarrow> bool" where
  "is_word_char c =
     (c \<in> set (''abcdefghijklmnopqrstuvwxyz'' @ ''ABCDEFGHIJKLMNOPQRSTUVWXYZ'' @ ''0123456789'' @ ''_''))"

text \<open>
  One attempt of the regular expression \<open>{{\s*([a-zA-Z0-9_]+)\s*}}\<close> at the start of
  \<open>s\<close>: the captured key and the text after the match. The three classes and the brace
  share no character, so each greedy star or plus takes the longest run and no
  backtracking finds another match (lemma \<open>match_placeholder_iff\<close> states it).
\<close>

definition match_placeholder :: "string \<Rightarrow> (string \<times> string) option" where
  "match_placeholder s =
     (case s of
        a # b # r0 \<Rightarrow>
          if a = CHR ''{'' \<and> b = CHR ''{'' then
            (let r1 = dropWhile is_space r0;
                 key = takeWhile is_word_char r1;
                 r2 = dropWhile is_space (dropWhile is_word_char r1)
             in if key = [] then None
                else (case r2 of
                        c # d # rest \<Rightarrow>
                          if c = CHR ''}'' \<and> d = CHR ''}'' then Some (key, rest) else None
                      | _ \<Rightarrow> None))
          else None
      | _ \<Rightarrow> None)"

text \<open>
  A \<open>TemplateContext\<close> is \<open>Record<string, string | undefined>\<close>, an object: \<open>None\<close> for a
  key the object does not own, \<open>Some None\<close> for an own key whose value is
  \<open>undefined\<close>, \<open>Some (Some v)\<close> for an own key with the string \<open>v\<close>.
\<close>

type_synonym TemplateContext = "string \<rightharpoonup> string option"

text \<open>
  The contexts of the source are object literals, so \<open>context[key]\<close> reads an own property
  or, when the object owns none of that name, the property \<open>Object.prototype\<close> has under
  it. These are the properties of \<open>Object.prototype\<close> in Node, each with what \<open>String\<close>
  makes of its value (a native function prints as its header and \<open>[native code]\<close>, the
  prototype object that \<open>__proto__\<close> gives as \<open>[object Object]\<close>).
\<close>

definition object_prototype :: "(string \<times> string) list" where
  "object_prototype =
     [(''constructor'', ''function Object() { [native code] }''),
      (''__defineGetter__'', ''function __defineGetter__() { [native code] }''),
      (''__defineSetter__'', ''function __defineSetter__() { [native code] }''),
      (''hasOwnProperty'', ''function hasOwnProperty() { [native code] }''),
      (''__lookupGetter__'', ''function __lookupGetter__() { [native code] }''),
      (''__lookupSetter__'', ''function __lookupSetter__() { [native code] }''),
      (''isPrototypeOf'', ''function isPrototypeOf() { [native code] }''),
      (''propertyIsEnumerable'', ''function propertyIsEnumerable() { [native code] }''),
      (''toString'', ''function toString() { [native code] }''),
      (''valueOf'', ''function valueOf() { [native code] }''),
      (''__proto__'', ''[object Object]''),
      (''toLocaleString'', ''function toLocaleString() { [native code] }'')]"

text \<open>
  The replacer of \<open>renderTemplate\<close>: \<open>value = context[key]\<close>, then
  \<open>value !== undefined ? String(value) : ""\<close>.
\<close>

definition placeholder_value :: "TemplateContext \<Rightarrow> string \<Rightarrow> string" where
  "placeholder_value context key =
     (case context key of
        Some (Some v) \<Rightarrow> v
      | Some None \<Rightarrow> []
      | None \<Rightarrow> (case map_of object_prototype key of Some shown \<Rightarrow> shown | None \<Rightarrow> []))"

text \<open>
  \<open>template.replace(re, replacer)\<close> with the global flag: the scan tries the expression at
  each position from the left; a match is replaced and the scan goes on after it, any other
  character is copied.
\<close>

function renderTemplate :: "string \<Rightarrow> TemplateContext \<Rightarrow> string" where
  "renderTemplate [] context = []"
| "renderTemplate (c # cs) context =
     (case match_placeholder (c # cs) of
        Some (key, rest) \<Rightarrow> placeholder_value context key @ renderTemplate rest context
      | None \<Rightarrow> c # renderTemplate cs context)"
  by pat_completeness auto
termination
proof (relation "measure (\<lambda>(t, context). length t)")
  show "wf (measure (\<lambda>(t, context :: TemplateContext). length t))" by simp
next
  fix c :: char and cs :: string and ctx :: TemplateContext and found key rest
  assume m: "match_placeholder (c # cs) = Some found" and found: "(key, rest) = found"
  have le: "length (dropWhile P xs) \<le> length xs" for P and xs :: string
    by (rule length_dropWhile_le)
  from m found obtain b r0 where s: "cs = b # r0"
    by (cases cs) (auto simp add: match_placeholder_def)
  let ?r2 = "dropWhile is_space (dropWhile is_word_char (dropWhile is_space r0))"
  from m found s obtain d e where r2: "?r2 = d # e # rest"
    by (auto simp add: match_placeholder_def Let_def split: if_splits list.splits)
  have "length ?r2 \<le> length r0"
    using le [of is_space "dropWhile is_word_char (dropWhile is_space r0)"]
      le [of is_word_char "dropWhile is_space r0"] le [of is_space r0]
    by linarith
  with r2 s have "length rest < length (c # cs)" by simp
  then show "((rest, ctx), (c # cs, ctx)) \<in> measure (\<lambda>(t, context). length t)"
    by simp
qed simp

section \<open>The argument tokenizer: \<open>splitArgs\<close>\<close>

text \<open>
  The loop of \<open>splitArgs\<close> over the characters of \<open>raw\<close>, with its three variables:
  \<open>args\<close> (the tokens pushed so far), \<open>current\<close> (the token being built) and
  \<open>quote\<close> (\<open>None\<close> for \<open>null\<close>, \<open>Some q\<close> inside a run opened by \<open>q\<close>).
  The first equation is the code after the loop.
\<close>

fun splitArgs_loop :: "string \<Rightarrow> string list \<Rightarrow> string \<Rightarrow> char option \<Rightarrow> string list" where
  "splitArgs_loop [] args current quote =
     (if current = [] then args else args @ [current])"
| "splitArgs_loop (ch # rest) args current quote =
     (case quote of
        Some q \<Rightarrow>
          if ch = q then splitArgs_loop rest args current None
          else splitArgs_loop rest args (current @ [ch]) quote
      | None \<Rightarrow>
          if ch = squote \<or> ch = dquote then splitArgs_loop rest args current (Some ch)
          else if is_space ch then
            (if current = [] then splitArgs_loop rest args current None
             else splitArgs_loop rest (args @ [current]) [] None)
          else splitArgs_loop rest args (current @ [ch]) None)"

definition splitArgs :: "string \<Rightarrow> string list" where
  "splitArgs raw = (if js_trim raw = [] then [] else splitArgs_loop raw [] [] None)"

section \<open>The output extractors\<close>

text \<open>
  \<open>parseVersionIdFromUpload\<close> is the first match of
  \<open>Worker Version ID:\s*([0-9a-fA-F-]+)\<close> and returns its group. One attempt at the
  start of \<open>s\<close>: the label, the longest run of white space, the longest run of the class;
  white space is not in the class, so giving white space back never helps.
\<close>

definition version_label :: string where
  "version_label = ''Worker Version ID:''"

definition is_hex_or_hyphen :: "char \<Rightarrow> bool" where
  "is_hex_or_hyphen c = (c \<in> set (''0123456789'' @ ''abcdef'' @ ''ABCDEF'' @ ''-''))"

definition match_version_id :: "string \<Rightarrow> string option" where
  "match_version_id s =
     (if js_startsWith s version_label then
        (let ident = takeWhile is_hex_or_hyphen (dropWhile is_space (drop (length version_label) s))
         in if ident = [] then None else Some ident)
      else None)"

fun parseVersionIdFromUpload :: "string \<Rightarrow> string option" where
  "parseVersionIdFromUpload [] = None"
| "parseVersionIdFromUpload (c # cs) =
     (case match_version_id (c # cs) of
        Some ident \<Rightarrow> Some ident
      | None \<Rightarrow> parseVersionIdFromUpload cs)"

text \<open>
  \<open>parseWranglerOutput\<close> is the first match of \<open>https?:\/\/[^\s"]+\<close>, whole. The record
  it returns has the one field \<open>deploymentUrl\<close> set or not.
\<close>

definition match_url_body :: "nat \<Rightarrow> string \<Rightarrow> string option" where
  "match_url_body n s =
     (let body = takeWhile (\<lambda>c. \<not> is_space c \<and> c \<noteq> dquote) (drop n s)
      in if body = [] then None else Some (take n s @ body))"

definition match_url :: "string \<Rightarrow> string option" where
  "match_url s =
     (if js_startsWith s ''https://'' then match_url_body 8 s
      else if js_startsWith s ''http://'' then match_url_body 7 s
      else None)"

fun parseWranglerOutput :: "string \<Rightarrow> string option" where
  "parseWranglerOutput [] = None"
| "parseWranglerOutput (c # cs) =
     (case match_url (c # cs) of
        Some url \<Rightarrow> Some url
      | None \<Rightarrow> parseWranglerOutput cs)"

section \<open>The default message and tag\<close>

record DeployMetadata =
  owner :: "string option"
  repo :: "string option"
  ref :: "string option"
  branch :: "string option"
  sha :: "string option"
  short_sha :: "string option"
  actor :: "string option"
  run_id :: "string option"
  run_number :: "string option"
  commit_message :: "string option"
  short_commit_message :: "string option"

text \<open>
  \<open>buildDefaultMessage\<close>. \<open>prefixParts\<close> holds at most one string, which
  \<open>join("")\<close> returns.
\<close>

definition buildDefaultMessage :: "DeployMetadata \<Rightarrow> string" where
  "buildDefaultMessage meta =
     (let branch' = js_or (branch meta) [];
          shortSha = js_or (short_sha meta)
                       (case sha meta of
                          None \<Rightarrow> []
                        | Some s \<Rightarrow> if s = [] then [] else take 6 s);
          baseMessage = js_or (short_commit_message meta) (js_or (commit_message meta) []);
          prefixParts =
            (if branch' \<noteq> [] then
               (if shortSha \<noteq> [] then [branch' @ ''@'' @ shortSha] else [branch'])
             else if shortSha \<noteq> [] then [shortSha]
             else []);
          prefix = js_join [] prefixParts;
          combined = (if prefix \<noteq> [] then prefix @ '': '' @ baseMessage else baseMessage)
      in take 100 combined)"

definition buildDefaultTag :: "DeployMetadata \<Rightarrow> string" where
  "buildDefaultTag meta = []"

section \<open>The collaborators: inputs, environment, processes, the log\<close>

text \<open>
  What a run reads from outside, as one value: the action's inputs (the empty string for
  an input that is not set), the environment variables, and what each of the three
  processes the run may start does: the chunks it writes, in order, and how the promise of
  \<open>exec.exec\<close> ends, resolved with an exit code or rejected with an error message.
\<close>

datatype chunk = Stdout string | Stderr string

datatype exec_end = Exit int | Rejected string

type_synonym exec_outcome = "chunk list \<times> exec_end"

text \<open>
  \<open>exec.exec\<close> is the library \<open>@actions/exec\<close>, which is not in the repository. \<open>run\<close>
  calls it without \<open>ignoreReturnCode\<close>, and then the library resolves the promise with 0
  when the process exits with 0, and rejects it when the process exits with any other code,
  with an error whose message names the path of the tool and the exit code.
\<close>

definition exec_rejection_message :: "string \<Rightarrow> int \<Rightarrow> string" where
  "exec_rejection_message toolPath code =
     ''The process '' @ [squote] @ toolPath @ [squote] @ '' failed with exit code '' @ show_int code"

definition exec_settles :: "string \<Rightarrow> int \<Rightarrow> exec_end" where
  "exec_settles toolPath code =
     (if code = 0 then Exit 0 else Rejected (exec_rejection_message toolPath code))"

record world =
  w_inputs :: "string \<Rightarrow> string"
  w_env :: "string \<Rightarrow> string option"
  w_git :: exec_outcome
  w_upload :: exec_outcome
  w_deploy :: exec_outcome

text \<open>
  What a run does to the outside, in order: a process started (command, arguments, working
  directory, the token put in its environment), a line of the log (\<open>core.info\<close>,
  \<open>core.error\<close>), an output published (\<open>core.setOutput\<close>), the run marked as failed
  (\<open>core.setFailed\<close>).
\<close>

datatype event =
    Exec string "string list" "string option" "string option"
  | Info string
  | ErrorLog string
  | SetOutput string string
  | SetFailed string

text \<open>
  \<open>core.getInput(name)\<close> returns the input trimmed. With \<open>{ required: true }\<close> it throws
  when the input is empty or not set; the check comes before the trim.
\<close>

definition getInput :: "(string \<Rightarrow> string) \<Rightarrow> string \<Rightarrow> string" where
  "getInput inputs name = js_trim (inputs name)"

definition getInput_required :: "(string \<Rightarrow> string) \<Rightarrow> string \<Rightarrow> string + string" where
  "getInput_required inputs name =
     (if inputs name = [] then Inl (''Input required and not supplied: '' @ name)
      else Inr (js_trim (inputs name)))"

text \<open>The text a process wrote on its standard output, as the \<open>stdout\<close> listeners add it up.\<close>

fun stdout_chunk :: "chunk \<Rightarrow> string" where
  "stdout_chunk (Stdout t) = t"
| "stdout_chunk (Stderr t) = []"

definition stdout_text :: "chunk list \<Rightarrow> string" where
  "stdout_text chunks = concat (map stdout_chunk chunks)"

text \<open>The listeners of the upload and the deploy also log each chunk as it comes.\<close>

fun stream_event :: "chunk \<Rightarrow> event" where
  "stream_event (Stdout t) = Info (js_trimEnd t)"
| "stream_event (Stderr t) = ErrorLog (js_trimEnd t)"

text \<open>The \<open>catch\<close> of \<open>run\<close>: \<open>core.setFailed(error.message || String(error))\<close>.\<close>

definition catch_error :: "string \<Rightarrow> event list" where
  "catch_error message = [SetFailed (if message = [] then ''Error'' else message)]"

section \<open>The metadata collector\<close>

text \<open>\<open>getLastCommitMessage\<close>: \<open>git log -1 --pretty=%B\<close>, silent; a rejection is caught.\<close>

definition git_args :: "string list" where
  "git_args = [''log'', ''-1'', ''--pretty=%B'']"

definition getLastCommitMessage :: "exec_outcome \<Rightarrow> string option" where
  "getLastCommitMessage git =
     (case snd git of
        Rejected e \<Rightarrow> None
      | Exit code \<Rightarrow>
          (let trimmed = js_trim (stdout_text (fst git))
           in if length trimmed > 0 then Some trimmed else None))"

text \<open>
  \<open>const [owner, repoName] = repoFull ? repoFull.split("/") : [undefined, undefined]\<close>:
  the array, and the element a destructuring pattern takes at a position.
\<close>

definition repo_parts :: "string option \<Rightarrow> string option list" where
  "repo_parts repoFull =
     (case repoFull of
        None \<Rightarrow> [None, None]
      | Some s \<Rightarrow> if s = [] then [None, None] else map Some (js_split (CHR ''/'') s))"

definition destructure :: "string option list \<Rightarrow> nat \<Rightarrow> string option" where
  "destructure parts i = (case js_index parts i of None \<Rightarrow> None | Some v \<Rightarrow> v)"

definition short_sha_of :: "string option \<Rightarrow> string option" where
  "short_sha_of sha' =
     (case sha' of None \<Rightarrow> None | Some s \<Rightarrow> if s = [] then None else Some (take 7 s))"

text \<open>\<open>collectMetadata\<close>, the collector that \<open>run\<close> calls.\<close>

definition collectMetadata :: "(string \<Rightarrow> string option) \<Rightarrow> exec_outcome \<Rightarrow> DeployMetadata" where
  "collectMetadata env git =
     (let repoFull = env ''GITHUB_REPOSITORY'';
          parts = repo_parts repoFull;
          owner' = destructure parts 0;
          repoName = destructure parts 1;
          sha' = env ''GITHUB_SHA'';
          short_sha' = short_sha_of sha';
          ref' = env ''GITHUB_REF'';
          branch' =
            (case ref' of
               None \<Rightarrow> None
             | Some r \<Rightarrow>
                 if r \<noteq> [] \<and> js_startsWith r ''refs/heads/''
                 then Some (drop (length ''refs/heads/'') r) else None);
          actor' = env ''GITHUB_ACTOR'';
          run_id' = env ''GITHUB_RUN_ID'';
          run_number' = env ''GITHUB_RUN_NUMBER'';
          commit_message' = getLastCommitMessage git;
          short_commit_message' =
            (case commit_message' of
               None \<Rightarrow> None
             | Some m \<Rightarrow> if m = [] then None else js_index (js_split (CHR 0x0A) m) 0)
      in \<lparr> owner = owner', repo = repoName, ref = ref', branch = branch', sha = sha',
           short_sha = short_sha', actor = actor', run_id = run_id', run_number = run_number',
           commit_message = commit_message', short_commit_message = short_commit_message' \<rparr>)"

text \<open>
  \<open>collectDeployMetadata\<close> of \<open>src/metadata.ts\<close>, the same collector as a module of its
  own: it differs in how it strips the branch prefix, and it trims the first line of the
  commit message. Its debug record of the metadata goes to the log and changes nothing.
\<close>

definition collectDeployMetadata :: "(string \<Rightarrow> string option) \<Rightarrow> exec_outcome \<Rightarrow> DeployMetadata" where
  "collectDeployMetadata env git =
     (let repoFull = env ''GITHUB_REPOSITORY'';
          parts = repo_parts repoFull;
          owner' = destructure parts 0;
          repo' = destructure parts 1;
          sha' = env ''GITHUB_SHA'';
          short_sha' = short_sha_of sha';
          ref' = env ''GITHUB_REF'';
          branch' =
            (case ref' of
               None \<Rightarrow> None
             | Some r \<Rightarrow>
                 if r \<noteq> [] \<and> js_startsWith r ''refs/heads/''
                 then Some (js_replace r ''refs/heads/'' []) else None);
          actor' = env ''GITHUB_ACTOR'';
          run_id' = env ''GITHUB_RUN_ID'';
          run_number' = env ''GITHUB_RUN_NUMBER'';
          commit_message' = getLastCommitMessage git;
          short_commit_message' =
            (case commit_message' of
               None \<Rightarrow> None
             | Some m \<Rightarrow>
                 if m = [] then None
                 else map_option js_trim (js_index (js_split (CHR 0x0A) m) 0))
      in \<lparr> owner = owner', repo = repo', ref = ref', branch = branch', sha = sha',
           short_sha = short_sha', actor = actor', run_id = run_id', run_number = run_number',
           commit_message = commit_message', short_commit_message = short_commit_message' \<rparr>)"

section \<open>The orchestrator: \<open>run\<close>\<close>

text \<open>
  The context of the two renders, \<open>{ ...metadata, deployment_url: undefined,
  version_id: undefined }\<close>: the object \<open>collectMetadata\<close> returns owns its eleven keys,
  whatever their values.
\<close>

definition preTemplateContext :: "DeployMetadata \<Rightarrow> TemplateContext" where
  "preTemplateContext metadata =
     [''repo'' \<mapsto> repo metadata, ''owner'' \<mapsto> owner metadata, ''ref'' \<mapsto> ref metadata,
      ''branch'' \<mapsto> branch metadata, ''sha'' \<mapsto> sha metadata,
      ''short_sha'' \<mapsto> short_sha metadata, ''actor'' \<mapsto> actor metadata,
      ''run_id'' \<mapsto> run_id metadata, ''run_number'' \<mapsto> run_number metadata,
      ''commit_message'' \<mapsto> commit_message metadata,
      ''short_commit_message'' \<mapsto> short_commit_message metadata,
      ''deployment_url'' \<mapsto> None, ''version_id'' \<mapsto> None]"

text \<open>The line of context that \<open>run\<close> logs first.\<close>

definition context_line :: "DeployMetadata \<Rightarrow> string" where
  "context_line metadata =
     js_join '' | ''
       [''Repository: '' @ js_nullish (owner metadata) ''unknown'' @ ''/''
          @ js_nullish (repo metadata) ''unknown'',
        ''Branch: '' @ js_nullish (branch metadata) (js_nullish (ref metadata) ''unknown''),
        ''SHA: '' @ js_nullish (sha metadata) ''unknown'',
        ''Actor: '' @ js_nullish (actor metadata) ''unknown'',
        ''Run: #'' @ js_nullish (run_number metadata) ''?'' @ '' (ID: ''
          @ js_nullish (run_id metadata) ''?'' @ '')'']"

text \<open>The two outputs that both ends of a run publish when they are not empty.\<close>

definition publish_message_tag :: "string \<Rightarrow> string \<Rightarrow> event list" where
  "publish_message_tag renderedMessage renderedTag =
     (if renderedMessage \<noteq> [] then [SetOutput ''message'' renderedMessage] else [])
     @ (if renderedTag \<noteq> [] then [SetOutput ''tag'' renderedTag] else [])"

text \<open>
  Step 3 of \<open>run\<close>: \<open>wrangler versions deploy\<close> of the version, the deployment URL, the
  outputs.
\<close>

definition run_deploy ::
  "world \<Rightarrow> string \<Rightarrow> string \<Rightarrow> string option \<Rightarrow> string \<Rightarrow> string list \<Rightarrow> string \<Rightarrow> string
     \<Rightarrow> string \<Rightarrow> event list" where
  "run_deploy w apiToken wranglerCommand workingDirectory config deployArgsList
       renderedMessage renderedTag versionId =
     (let deployArgs =
            [''versions'', ''deploy'', versionId, ''-y'', ''--config'', config]
            @ deployArgsList @ [''--message='' @ renderedMessage]
      in [Info (''Running deploy: '' @ wranglerCommand @ '' '' @ js_join '' '' deployArgs),
          Exec wranglerCommand deployArgs workingDirectory (Some apiToken)]
         @ map stream_event (fst (w_deploy w))
         @ (case snd (w_deploy w) of
              Rejected e \<Rightarrow> catch_error e
            | Exit deployExitCode \<Rightarrow>
                if deployExitCode \<noteq> 0 then
                  [SetFailed (''wrangler versions deploy failed with exit code ''
                     @ show_int deployExitCode @ ''. See logs above for details.'')]
                else
                  (case parseWranglerOutput (stdout_text (fst (w_deploy w))) of
                     Some deploymentUrl \<Rightarrow>
                       if deploymentUrl \<noteq> [] then
                         [Info (''Detected deployment URL: '' @ deploymentUrl),
                          SetOutput ''deployment_url'' deploymentUrl]
                       else
                         [Info ''No deployment URL detected from Wrangler deploy output. If this is unexpected, please open an issue with example logs.'']
                   | None \<Rightarrow>
                       [Info ''No deployment URL detected from Wrangler deploy output. If this is unexpected, please open an issue with example logs.''])
                  @ [SetOutput ''version_id'' versionId]
                  @ publish_message_tag renderedMessage renderedTag))"

text \<open>
  Step 2 of \<open>run\<close>: \<open>wrangler versions upload\<close>, the version id, the end of an
  upload-only run, and the deploy.
\<close>

definition run_upload ::
  "world \<Rightarrow> string \<Rightarrow> string \<Rightarrow> string option \<Rightarrow> bool \<Rightarrow> string \<Rightarrow> string list \<Rightarrow> string list
     \<Rightarrow> string \<Rightarrow> string \<Rightarrow> event list" where
  "run_upload w apiToken wranglerCommand workingDirectory onlyUpload config uploadArgsList
       deployArgsList renderedMessage renderedTag =
     (let uploadArgs =
            [''versions'', ''upload'', ''--config'', config]
            @ uploadArgsList @ [''--message='' @ renderedMessage]
      in [Info (''Running upload: '' @ wranglerCommand @ '' '' @ js_join '' '' uploadArgs),
          Exec wranglerCommand uploadArgs workingDirectory (Some apiToken)]
         @ map stream_event (fst (w_upload w))
         @ (case snd (w_upload w) of
              Rejected e \<Rightarrow> catch_error e
            | Exit uploadExitCode \<Rightarrow>
                if uploadExitCode \<noteq> 0 then
                  [SetFailed (''wrangler versions upload failed with exit code ''
                     @ show_int uploadExitCode @ ''. See logs above for details.'')]
                else
                  (let versionId = parseVersionIdFromUpload (stdout_text (fst (w_upload w)))
                   in if onlyUpload then
                        (if js_truthy versionId then
                           [Info (''Parsed Worker Version ID (only_upload=true): ''
                              @ js_or versionId []),
                            SetOutput ''version_id'' (js_or versionId [])]
                         else
                           [Info ''only_upload=true and no Worker Version ID could be parsed; exiting successfully.''])
                        @ publish_message_tag renderedMessage renderedTag
                      else if \<not> js_truthy versionId then
                        [SetFailed ''Failed to parse Worker Version ID from wrangler versions upload output.'']
                      else
                        Info (''Parsed Worker Version ID: '' @ js_or versionId [])
                        # run_deploy w apiToken wranglerCommand workingDirectory config
                            deployArgsList renderedMessage renderedTag (js_or versionId []))))"

text \<open>
  \<open>run\<close> from its first line: the inputs, the metadata (which starts \<open>git\<close>), step 1 (the
  message and the tag), then the upload. An input that is required and missing throws
  before anything else is done, and the \<open>catch\<close> reports it.
\<close>

definition run :: "world \<Rightarrow> event list" where
  "run w =
     (case getInput_required (w_inputs w) ''api_token'' of
        Inl e \<Rightarrow> catch_error e
      | Inr apiToken \<Rightarrow>
     (case getInput_required (w_inputs w) ''wrangler_command'' of
        Inl e \<Rightarrow> catch_error e
      | Inr wranglerCommandInput \<Rightarrow>
     (let workingDirectoryInput = js_or (Some (getInput (w_inputs w) ''working_directory'')) [];
          onlyUploadInput = js_or (Some (getInput (w_inputs w) ''only_upload'')) ''false'';
          onlyUpload = (js_toLowerCase onlyUploadInput = ''true'')
      in
     (case getInput_required (w_inputs w) ''config'' of
        Inl e \<Rightarrow> catch_error e
      | Inr config \<Rightarrow>
     (let uploadArgsRaw = js_or (Some (getInput (w_inputs w) ''upload_args'')) [];
          deployArgsRaw = js_or (Some (getInput (w_inputs w) ''deploy_args'')) [];
          messageTemplate = js_or (Some (getInput (w_inputs w) ''message_template'')) [];
          tagTemplate = js_or (Some (getInput (w_inputs w) ''tag_template'')) [];
          uploadArgsList = splitArgs uploadArgsRaw;
          deployArgsList = splitArgs deployArgsRaw;
          workingDirectory =
            (if length (js_trim workingDirectoryInput) > 0
             then Some (js_trim workingDirectoryInput) else None);
          wranglerCommand = js_trim wranglerCommandInput
      in if apiToken = [] then [SetFailed ''Cloudflare API token (api_token) is required.'']
         else
           (let metadata = collectMetadata (w_env w) (w_git w);
                renderedMessage =
                  (if messageTemplate \<noteq> []
                   then renderTemplate messageTemplate (preTemplateContext metadata)
                   else buildDefaultMessage metadata);
                renderedTag =
                  (if tagTemplate \<noteq> []
                   then renderTemplate tagTemplate (preTemplateContext metadata)
                   else buildDefaultTag metadata)
            in [Exec ''git'' git_args None None,
                Info (context_line metadata),
                Info (''Using deployment message: '' @ renderedMessage)]
               @ (if renderedTag \<noteq> [] then [Info (''Using deployment tag: '' @ renderedTag)]
                  else [])
               @ run_upload w apiToken wranglerCommand workingDirectory onlyUpload config
                   uploadArgsList deployArgsList renderedMessage renderedTag))))))"

chapter \<open>The words of the claims\<close>

text \<open>
  What the claims speak of and the program has no name for, each defined in the words of
  the specification, and the values the examples use.
\<close>

section \<open>The shape of an argument string\<close>

text \<open>
  The specification describes the raw string as tokens set apart by runs of white space,
  a token being unquoted text and quoted runs side by side. A segment is either plain text
  (no white space, no quote character) or a run between two equal quote characters that
  does not hold that character; a word is one segment or more; a line is words, each
  followed by its run of white space, which only the last word may lack.
\<close>


definition is_quote :: "char \<Rightarrow> bool" where
  "is_quote c = (c = squote \<or> c = dquote)"

datatype segment = Plain string | Quoted char string

fun raw_of_segment :: "segment \<Rightarrow> string" where
  "raw_of_segment (Plain s) = s"
| "raw_of_segment (Quoted q s) = q # s @ [q]"

fun text_of_segment :: "segment \<Rightarrow> string" where
  "text_of_segment (Plain s) = s"
| "text_of_segment (Quoted q s) = s"

fun valid_segment :: "segment \<Rightarrow> bool" where
  "valid_segment (Plain s) = (s \<noteq> [] \<and> list_all (\<lambda>c. \<not> is_space c \<and> \<not> is_quote c) s)"
| "valid_segment (Quoted q s) = (is_quote q \<and> list_all (\<lambda>c. c \<noteq> q) s)"

definition raw_of_word :: "segment list \<Rightarrow> string" where
  "raw_of_word w = concat (map raw_of_segment w)"

definition text_of_word :: "segment list \<Rightarrow> string" where
  "text_of_word w = concat (map text_of_segment w)"

definition valid_word :: "segment list \<Rightarrow> bool" where
  "valid_word w = (w \<noteq> [] \<and> list_all valid_segment w)"

fun well_separated :: "(segment list \<times> string) list \<Rightarrow> bool" where
  "well_separated [] = True"
| "well_separated [(w, s)] = (valid_word w \<and> list_all is_space s)"
| "well_separated ((w, s) # p # ps) =
     (valid_word w \<and> s \<noteq> [] \<and> list_all is_space s \<and> well_separated (p # ps))"

fun line_raw :: "(segment list \<times> string) list \<Rightarrow> string" where
  "line_raw [] = []"
| "line_raw ((w, s) # ps) = raw_of_word w @ s @ line_raw ps"

section \<open>A labelled identifier\<close>

text \<open>
  \<open>version_id_here s ident\<close>: the text \<open>s\<close> starts with the label, then white space (or
  none), then the identifier \<open>ident\<close>, one or more characters that are hexadecimal
  digits or hyphens, as long as it goes.
\<close>


definition version_id_here :: "string \<Rightarrow> string \<Rightarrow> bool" where
  "version_id_here s ident =
     (\<exists>ws rest. s = version_label @ ws @ ident @ rest \<and> list_all is_space ws
        \<and> ident \<noteq> [] \<and> list_all is_hex_or_hyphen ident
        \<and> (rest = [] \<or> \<not> is_hex_or_hyphen (hd rest)))"

section \<open>A metadata value for the examples\<close>

text \<open>A metadata value for the examples: a branch, a commit, no short sha of its own.\<close>

definition example_metadata :: DeployMetadata where
  "example_metadata =
     \<lparr> owner = Some ''o'', repo = Some ''r'', ref = Some ''refs/heads/main'',
       branch = Some ''main'', sha = Some ''0123456789abcdef'', short_sha = None,
       actor = None, run_id = None, run_number = None,
       commit_message = Some ''fix bug'', short_commit_message = None \<rparr>"

section \<open>Parts of a value\<close>

text \<open>
  The text before the first slash of a value (all of it when it has no slash), the text
  after that slash (nothing when it has none), and the first line of a message.
\<close>

definition before_slash :: "string \<Rightarrow> string" where
  "before_slash r = takeWhile (\<lambda>c. c \<noteq> CHR ''/'') r"

definition after_slash :: "string \<Rightarrow> string" where
  "after_slash r = tl (dropWhile (\<lambda>c. c \<noteq> CHR ''/'') r)"

definition first_line :: "string \<Rightarrow> string" where
  "first_line m = takeWhile (\<lambda>c. c \<noteq> CHR 0x0A) m"

text \<open>
  What \<open>git log -1 --pretty=%B\<close> prints for a commit whose subject line ends with two
  spaces and whose body is one line.
\<close>

definition two_line_log :: exec_outcome where
  "two_line_log = ([Stdout (''fix bug  '' @ [CHR 0x0A] @ ''body'' @ [CHR 0x0A])], Exit 0)"

section \<open>A decimal numeral\<close>

text \<open>
  \<open>is_decimal_of s i\<close>: the text \<open>s\<close> is the integer \<open>i\<close> written in decimal, that is
  digits with no leading zero whose value is \<open>i\<close>, after a minus sign when \<open>i\<close> is
  negative.
\<close>

definition is_digit :: "char \<Rightarrow> bool" where
  "is_digit c = (c \<in> set ''0123456789'')"

definition decimal_nat :: "string \<Rightarrow> nat" where
  "decimal_nat s = foldl (\<lambda>a c. 10 * a + (of_char c - 48)) 0 s"

definition is_numeral :: "string \<Rightarrow> bool" where
  "is_numeral s = (s \<noteq> [] \<and> list_all is_digit s \<and> (s = ''0'' \<or> hd s \<noteq> CHR ''0''))"

definition is_decimal_of :: "string \<Rightarrow> int \<Rightarrow> bool" where
  "is_decimal_of s i =
     (if i < 0 then s \<noteq> [] \<and> hd s = CHR ''-'' \<and> is_numeral (tl s) \<and> tl s \<noteq> ''0''
                    \<and> int (decimal_nat (tl s)) = - i
      else is_numeral s \<and> int (decimal_nat s) = i)"

section \<open>What a trace shows\<close>

text \<open>
  The events a claim speaks of: the run marked as failed, an output published (any, or one
  by its name), the upload started, the deploy started. \<open>inputs_accepted\<close> holds when the
  three required inputs are there and the token is not blank, that is when \<open>run\<close> gets as
  far as the upload; \<open>upload_only\<close> is the \<open>onlyUpload\<close> of \<open>run\<close>.
\<close>

fun is_failure :: "event \<Rightarrow> bool" where
  "is_failure (SetFailed m) = True"
| "is_failure e = False"

fun is_output :: "event \<Rightarrow> bool" where
  "is_output (SetOutput name v) = True"
| "is_output e = False"

fun publishes :: "string \<Rightarrow> event \<Rightarrow> bool" where
  "publishes name (SetOutput name' v) = (name' = name)"
| "publishes name e = False"

fun is_upload :: "event \<Rightarrow> bool" where
  "is_upload (Exec command args cwd token) = (take 2 args = [''versions'', ''upload''])"
| "is_upload e = False"

fun is_deploy :: "event \<Rightarrow> bool" where
  "is_deploy (Exec command args cwd token) = (take 2 args = [''versions'', ''deploy''])"
| "is_deploy e = False"

definition inputs_accepted :: "world \<Rightarrow> bool" where
  "inputs_accepted w =
     (js_trim (w_inputs w ''api_token'') \<noteq> [] \<and> w_inputs w ''wrangler_command'' \<noteq> []
      \<and> w_inputs w ''config'' \<noteq> [])"

definition upload_only :: "world \<Rightarrow> bool" where
  "upload_only w =
     (js_toLowerCase (js_or (Some (getInput (w_inputs w) ''only_upload'')) ''false'') = ''true'')"

definition upload_failed_message :: "int \<Rightarrow> string" where
  "upload_failed_message code =
     ''wrangler versions upload failed with exit code '' @ show_int code
     @ ''. See logs above for details.''"

text \<open>
  The values \<open>run\<close> works out before the upload, by the names of its variables, and the
  events of a run whose inputs are accepted up to the start of the upload.
\<close>

definition renderedMessage_of :: "world \<Rightarrow> string" where
  "renderedMessage_of w =
     (let metadata = collectMetadata (w_env w) (w_git w);
          messageTemplate = getInput (w_inputs w) ''message_template''
      in if messageTemplate \<noteq> []
         then renderTemplate messageTemplate (preTemplateContext metadata)
         else buildDefaultMessage metadata)"

definition renderedTag_of :: "world \<Rightarrow> string" where
  "renderedTag_of w =
     (let metadata = collectMetadata (w_env w) (w_git w);
          tagTemplate = getInput (w_inputs w) ''tag_template''
      in if tagTemplate \<noteq> []
         then renderTemplate tagTemplate (preTemplateContext metadata)
         else buildDefaultTag metadata)"

definition workingDirectory_of :: "world \<Rightarrow> string option" where
  "workingDirectory_of w =
     (if js_trim (getInput (w_inputs w) ''working_directory'') \<noteq> []
      then Some (js_trim (getInput (w_inputs w) ''working_directory'')) else None)"

definition prelude :: "world \<Rightarrow> event list" where
  "prelude w =
     [Exec ''git'' git_args None None,
      Info (context_line (collectMetadata (w_env w) (w_git w))),
      Info (''Using deployment message: '' @ renderedMessage_of w)]
     @ (if renderedTag_of w \<noteq> [] then [Info (''Using deployment tag: '' @ renderedTag_of w)]
        else [])"

text \<open>
  A world for the examples: the three required inputs and nothing else, a push to
  \<open>main\<close>, an upload that prints a version id and a deploy that prints a URL.
\<close>

definition example_inputs :: "string \<Rightarrow> string" where
  "example_inputs name =
     (if name = ''api_token'' then ''secret''
      else if name = ''wrangler_command'' then ''npx wrangler''
      else if name = ''config'' then ''wrangler.toml''
      else [])"

definition example_world :: world where
  "example_world =
     \<lparr> w_inputs = example_inputs,
       w_env = [''GITHUB_REPOSITORY'' \<mapsto> ''octo/site'', ''GITHUB_REF'' \<mapsto> ''refs/heads/main'',
                ''GITHUB_SHA'' \<mapsto> ''0123456789abcdef'', ''GITHUB_ACTOR'' \<mapsto> ''dev''],
       w_git = ([Stdout (''fix bug'' @ [CHR 0x0A])], Exit 0),
       w_upload = ([Stdout ''Uploaded. Worker Version ID: 0a1b-2c''], Exit 0),
       w_deploy = ([Stdout ''Deployed to https://site.example.dev now''], Exit 0) \<rparr>"

section \<open>A placeholder\<close>

text \<open>
  \<open>is_placeholder p key\<close>: the text \<open>p\<close> is two opening braces, white space or none, the
  name \<open>key\<close> (one or more letters, digits or underscores), white space or none, two
  closing braces. \<open>has_placeholder t\<close>: some part of \<open>t\<close> is a placeholder.
  \<open>inherited_names\<close> are the names every object has from \<open>Object.prototype\<close>.
\<close>


definition is_placeholder :: "string \<Rightarrow> string \<Rightarrow> bool" where
  "is_placeholder p key =
     (\<exists>ws1 ws2. p = ''{{'' @ ws1 @ key @ ws2 @ ''}}'' \<and> list_all is_space ws1
        \<and> key \<noteq> [] \<and> list_all is_word_char key \<and> list_all is_space ws2)"

definition has_placeholder :: "string \<Rightarrow> bool" where
  "has_placeholder t = (\<exists>pre p key post. t = pre @ p @ post \<and> is_placeholder p key)"

definition inherited_names :: "string list" where
  "inherited_names = map fst object_prototype"

chapter \<open>The tokenizer\<close>

section \<open>The loop, segment by segment\<close>

lemma js_trim_Nil_iff: "js_trim s = [] \<longleftrightarrow> list_all is_space s"
proof
  assume "js_trim s = []"
  then have all: "\<forall>c\<in>set (dropWhile is_space s). is_space c"
    by (simp add: js_trim_def js_trimEnd_def js_trimStart_def dropWhile_eq_Nil_conv)
  have "dropWhile is_space s = []"
  proof (rule ccontr)
    assume ne: "dropWhile is_space s \<noteq> []"
    then have "\<not> is_space (hd (dropWhile is_space s))" by (rule hd_dropWhile)
    moreover from ne have "hd (dropWhile is_space s) \<in> set (dropWhile is_space s)" by simp
    ultimately show False using all by blast
  qed
  then show "list_all is_space s" by (simp add: dropWhile_eq_Nil_conv list_all_iff)
next
  assume "list_all is_space s"
  then have d: "dropWhile is_space s = []" by (simp add: dropWhile_eq_Nil_conv list_all_iff)
  show "js_trim s = []" unfolding js_trim_def js_trimEnd_def js_trimStart_def d by simp
qed

lemma is_space_not_quote: "is_space c \<Longrightarrow> c \<noteq> squote \<and> c \<noteq> dquote"
  by (auto simp add: is_space_def squote_def dquote_def)

lemma loop_spaces_empty:
  "list_all is_space s \<Longrightarrow> splitArgs_loop (s @ rest) args [] None = splitArgs_loop rest args [] None"
  by (induction s) (simp_all add: is_space_not_quote)

lemma loop_spaces_flush:
  assumes "list_all is_space s" and "s \<noteq> []"
  shows "splitArgs_loop (s @ rest) args cur None =
         splitArgs_loop rest (if cur = [] then args else args @ [cur]) [] None"
proof (cases s)
  case Nil
  with assms show ?thesis by simp
next
  case (Cons c s')
  with assms have c: "is_space c" and s': "list_all is_space s'" by simp_all
  show ?thesis
    using c loop_spaces_empty [OF s'] by (simp add: Cons is_space_not_quote)
qed

lemma splitArgs_is_loop: "splitArgs raw = splitArgs_loop raw [] [] None"
proof (cases "js_trim raw = []")
  case True
  then have "list_all is_space raw" by (simp add: js_trim_Nil_iff)
  from loop_spaces_empty [OF this, of "[]" "[]"] True show ?thesis
    by (simp add: splitArgs_def)
next
  case False
  then show ?thesis by (simp add: splitArgs_def)
qed

lemma loop_in_quote:
  "list_all (\<lambda>c. c \<noteq> q) s \<Longrightarrow>
   splitArgs_loop (s @ rest) args cur (Some q) = splitArgs_loop rest args (cur @ s) (Some q)"
  by (induction s arbitrary: cur) simp_all

lemma loop_plain:
  "list_all (\<lambda>c. \<not> is_space c \<and> \<not> is_quote c) s \<Longrightarrow>
   splitArgs_loop (s @ rest) args cur None = splitArgs_loop rest args (cur @ s) None"
  by (induction s arbitrary: cur) (simp_all add: is_quote_def)

lemma loop_segment:
  "valid_segment g \<Longrightarrow>
   splitArgs_loop (raw_of_segment g @ rest) args cur None =
   splitArgs_loop rest args (cur @ text_of_segment g) None"
proof (cases g)
  case (Plain s)
  assume "valid_segment g"
  with Plain show ?thesis by (simp add: loop_plain)
next
  case (Quoted q s)
  assume "valid_segment g"
  with Quoted have q: "is_quote q" and s: "list_all (\<lambda>c. c \<noteq> q) s" by simp_all
  from q have "splitArgs_loop (raw_of_segment g @ rest) args cur None =
               splitArgs_loop (s @ q # rest) args cur (Some q)"
    by (auto simp add: Quoted is_quote_def)
  also have "\<dots> = splitArgs_loop (q # rest) args (cur @ s) (Some q)"
    by (rule loop_in_quote [OF s])
  finally show ?thesis by (simp add: Quoted)
qed

lemma loop_word:
  "list_all valid_segment w \<Longrightarrow>
   splitArgs_loop (raw_of_word w @ rest) args cur None =
   splitArgs_loop rest args (cur @ text_of_word w) None"
  by (induction w arbitrary: cur) (simp_all add: raw_of_word_def text_of_word_def loop_segment)

lemma loop_line:
  "well_separated ps \<Longrightarrow>
   splitArgs_loop (line_raw ps) args [] None =
   args @ filter (\<lambda>t. t \<noteq> []) (map (text_of_word \<circ> fst) ps)"
proof (induction ps arbitrary: args rule: well_separated.induct)
  case 1
  then show ?case by simp
next
  case (2 w s)
  then have w: "list_all valid_segment w" and s: "list_all is_space s"
    by (simp_all add: valid_word_def)
  show ?case
  proof (cases "s = []")
    case True
    with loop_word [OF w, of "[]" args "[]"] show ?thesis by simp
  next
    case False
    with loop_word [OF w, of "s" args "[]"] loop_spaces_flush [OF s False, of "[]" args "text_of_word w"]
    show ?thesis by simp
  qed
next
  case (3 w s p ps)
  then have w: "list_all valid_segment w" and s: "list_all is_space s" and ne: "s \<noteq> []"
    and rest: "well_separated (p # ps)"
    by (simp_all add: valid_word_def)
  have "splitArgs_loop (line_raw ((w, s) # p # ps)) args [] None =
        splitArgs_loop (s @ line_raw (p # ps)) args (text_of_word w) None"
    using loop_word [OF w, of "s @ line_raw (p # ps)" args "[]"] by simp
  also have "\<dots> = splitArgs_loop (line_raw (p # ps))
                    (if text_of_word w = [] then args else args @ [text_of_word w]) [] None"
    by (rule loop_spaces_flush [OF s ne])
  also have "\<dots> = (if text_of_word w = [] then args else args @ [text_of_word w])
                   @ filter (\<lambda>t. t \<noteq> []) (map (text_of_word \<circ> fst) (p # ps))"
    by (rule "3.IH" [OF rest])
  also have "\<dots> = args @ filter (\<lambda>t. t \<noteq> []) (map (text_of_word \<circ> fst) ((w, s) # p # ps))"
    by simp
  finally show ?case .
qed

lemma loop_line_state:
  "well_separated ps \<Longrightarrow>
   \<exists>args' cur'. \<forall>rest. splitArgs_loop (line_raw ps @ rest) args [] None =
                          splitArgs_loop rest args' cur' None"
proof (induction ps arbitrary: args rule: well_separated.induct)
  case 1
  then show ?case by auto
next
  case (2 w s)
  then have w: "list_all valid_segment w" and s: "list_all is_space s"
    by (simp_all add: valid_word_def)
  show ?case
  proof (cases "s = []")
    case True
    with loop_word [OF w, of _ args "[]"] show ?thesis by auto
  next
    case False
    have "\<forall>rest. splitArgs_loop (line_raw [(w, s)] @ rest) args [] None =
          splitArgs_loop rest (if text_of_word w = [] then args else args @ [text_of_word w]) [] None"
      using loop_word [OF w, of _ args "[]"] loop_spaces_flush [OF s False, of _ args "text_of_word w"]
      by simp
    then show ?thesis by blast
  qed
next
  case (3 w s p ps)
  then have w: "list_all valid_segment w" and s: "list_all is_space s" and ne: "s \<noteq> []"
    and rest: "well_separated (p # ps)"
    by (simp_all add: valid_word_def)
  let ?a = "if text_of_word w = [] then args else args @ [text_of_word w]"
  from "3.IH" [OF rest, of ?a] obtain args' cur' where
    st: "\<forall>rest. splitArgs_loop (line_raw (p # ps) @ rest) ?a [] None = splitArgs_loop rest args' cur' None"
    by blast
  have "\<forall>rest. splitArgs_loop (line_raw ((w, s) # p # ps) @ rest) args [] None =
               splitArgs_loop rest args' cur' None"
  proof
    fix rest
    have "splitArgs_loop (line_raw ((w, s) # p # ps) @ rest) args [] None =
          splitArgs_loop (s @ line_raw (p # ps) @ rest) args (text_of_word w) None"
      using loop_word [OF w, of "s @ line_raw (p # ps) @ rest" args "[]"] by simp
    also have "\<dots> = splitArgs_loop (line_raw (p # ps) @ rest) ?a [] None"
      by (rule loop_spaces_flush [OF s ne])
    also have "\<dots> = splitArgs_loop rest args' cur' None"
      using st by blast
    finally show "splitArgs_loop (line_raw ((w, s) # p # ps) @ rest) args [] None =
               splitArgs_loop rest args' cur' None" .
  qed
  then show ?case by blast
qed

lemma loop_unterminated:
  "list_all (\<lambda>c. c \<noteq> q) s \<Longrightarrow>
   splitArgs_loop s args cur (Some q) = splitArgs_loop (s @ [q]) args cur (Some q)"
  using loop_in_quote [of q s "[]" args cur] loop_in_quote [of q s "[q]" args cur] by simp


lemma loop_one_quote_kind:
  assumes kinds: "(q = squote \<and> other = dquote) \<or> (q = dquote \<and> other = squote)"
  shows "other \<notin> set raw \<Longrightarrow> quote = None \<or> quote = Some q \<Longrightarrow>
     list_all (\<lambda>t. q \<notin> set t \<and> other \<notin> set t) args \<Longrightarrow> q \<notin> set current \<Longrightarrow> other \<notin> set current \<Longrightarrow>
     list_all (\<lambda>t. q \<notin> set t \<and> other \<notin> set t) (splitArgs_loop raw args current quote)"
proof (induction raw arbitrary: args current quote)
  case Nil
  then show ?case by simp
next
  case (Cons ch rest)
  from Cons.prems(1) have ch: "ch \<noteq> other" and rest: "other \<notin> set rest" by auto
  from Cons.prems(2) show ?case
  proof
    assume st: "quote = None"
    show ?thesis
    proof (cases "ch = q")
      case True
      with kinds have "splitArgs_loop (ch # rest) args current quote =
                       splitArgs_loop rest args current (Some q)"
        by (auto simp add: st)
      with Cons.IH [OF rest _ Cons.prems(3,4,5), of "Some q"] show ?thesis by simp
    next
      case False
      with ch kinds have nq: "ch \<noteq> squote" "ch \<noteq> dquote" by auto
      show ?thesis
      proof (cases "is_space ch")
        case True
        with nq st Cons.IH [OF rest _ Cons.prems(3,4,5), of None]
          Cons.IH [OF rest, of None "args @ [current]" "[]"] Cons.prems(3,4,5)
        show ?thesis by auto
      next
        case sp: False
        with nq st False ch Cons.IH [OF rest _ Cons.prems(3), of None "current @ [ch]"] Cons.prems(4,5)
        show ?thesis by simp
      qed
    qed
  next
    assume st: "quote = Some q"
    show ?thesis
    proof (cases "ch = q")
      case True
      with st Cons.IH [OF rest _ Cons.prems(3,4,5), of None] show ?thesis by simp
    next
      case False
      with st ch Cons.IH [OF rest _ Cons.prems(3), of "Some q" "current @ [ch]"] Cons.prems(4,5)
      show ?thesis by simp
    qed
  qed
qed

lemma splitArgs_one_quote_kind:
  assumes "squote \<notin> set raw \<or> dquote \<notin> set raw"
  shows "list_all (\<lambda>t. squote \<notin> set t \<and> dquote \<notin> set t) (splitArgs raw)"
proof -
  from assms show ?thesis
  proof
    assume "squote \<notin> set raw"
    from loop_one_quote_kind [of dquote squote raw None "[]" "[]", OF _ this]
    show ?thesis by (simp add: splitArgs_is_loop conj_commute)
  next
    assume "dquote \<notin> set raw"
    from loop_one_quote_kind [of squote dquote raw None "[]" "[]", OF _ this]
    show ?thesis by (simp add: splitArgs_is_loop)
  qed
qed


section \<open>Tokens are never empty\<close>

lemma splitArgs_loop_nonempty:
  "list_all (\<lambda>t. t \<noteq> []) args \<Longrightarrow>
   list_all (\<lambda>t. t \<noteq> []) (splitArgs_loop raw args current quote)"
proof (induction raw arbitrary: args current quote)
  case Nil
  then show ?case by simp
next
  case (Cons ch rest)
  then show ?case by (simp split: option.split)
qed

text \<open>
  Claim C10. Every token that \<open>splitArgs\<close> returns is a non-empty string, for every raw
  input; a quoted empty string contributes no token: \<open>""\<close> gives no token at all and
  \<open>a "" b\<close> gives the two tokens \<open>a\<close> and \<open>b\<close>.
\<close>

theorem splitArgs_no_empty_token:
  "(\<forall>t\<in>set (splitArgs raw). t \<noteq> [])
   \<and> splitArgs [dquote, dquote] = []
   \<and> splitArgs [CHR ''a'', CHR '' '', dquote, dquote, CHR '' '', CHR ''b''] = [''a'', ''b'']"
proof -
  have "\<forall>t\<in>set (splitArgs raw). t \<noteq> []"
    using splitArgs_loop_nonempty [of "[]" raw "[]" None]
    by (simp add: splitArgs_is_loop list_all_iff)
  moreover have "splitArgs [dquote, dquote] = []"
    by (simp add: splitArgs_is_loop squote_def dquote_def)
  moreover have "splitArgs [CHR ''a'', CHR '' '', dquote, dquote, CHR '' '', CHR ''b''] = [''a'', ''b'']"
    by (simp add: splitArgs_is_loop is_space_def squote_def dquote_def)
  ultimately show ?thesis by simp
qed

theorem splitArgs_no_empty_token_witness:
  "splitArgs [CHR ''-'', CHR ''e'', CHR '' '', squote, squote, CHR '' '', CHR ''p''] = [''-e'', ''p'']
   \<and> ''-e'' \<noteq> [] \<and> ''p'' \<noteq> []"
proof -
  have run: "splitArgs [CHR ''-'', CHR ''e'', CHR '' '', squote, squote, CHR '' '', CHR ''p''] = [''-e'', ''p'']"
    by (simp add: splitArgs_is_loop is_space_def squote_def dquote_def)
  from splitArgs_no_empty_token [of "[CHR ''-'', CHR ''e'', CHR '' '', squote, squote, CHR '' '', CHR ''p'']"]
  have "\<forall>t\<in>set (splitArgs [CHR ''-'', CHR ''e'', CHR '' '', squote, squote, CHR '' '', CHR ''p'']). t \<noteq> []"
    by blast
  with run show ?thesis by simp
qed

section \<open>The contract of the tokenizer\<close>

text \<open>
  Claim C2, amended. For every raw string: white space alone gives no token; a line of
  words gives the texts of its words in order, the empty ones left out, where the text of a
  word is its plain segments and the insides of its quoted runs put together (so the two
  quote characters around a run are dropped, white space inside a run stays in the token,
  and a quote character of the other kind inside a run stays too); a quote left open at
  the end gives what the same string with the closing quote added gives; when the raw
  string does not hold both kinds of quote character, no token holds a quote character;
  and \<open>a'b c'd\<close> gives the one token \<open>ab cd\<close>.
\<close>

theorem splitArgs_contract:
  "(list_all is_space raw \<longrightarrow> splitArgs raw = [])
   \<and> (list_all is_space lead \<and> well_separated ps \<longrightarrow>
        splitArgs (lead @ line_raw ps) = filter (\<lambda>t. t \<noteq> []) (map (text_of_word \<circ> fst) ps))
   \<and> (list_all is_space lead \<and> well_separated ps \<and> is_quote q \<and> list_all (\<lambda>c. c \<noteq> q) s \<longrightarrow>
        splitArgs (lead @ line_raw ps @ q # s) = splitArgs (lead @ line_raw ps @ q # s @ [q]))
   \<and> (squote \<notin> set raw \<or> dquote \<notin> set raw \<longrightarrow>
        list_all (\<lambda>t. squote \<notin> set t \<and> dquote \<notin> set t) (splitArgs raw))
   \<and> splitArgs [CHR ''a'', squote, CHR ''b'', CHR '' '', CHR ''c'', squote, CHR ''d''] = [''ab cd'']"
proof -
  have blank: "splitArgs raw = []" if "list_all is_space raw"
    using that by (simp add: splitArgs_def js_trim_Nil_iff)
  have line: "splitArgs (lead @ line_raw ps) = filter (\<lambda>t. t \<noteq> []) (map (text_of_word \<circ> fst) ps)"
    if "list_all is_space lead" and "well_separated ps"
    using loop_spaces_empty [OF that(1), of "line_raw ps" "[]"] loop_line [OF that(2), of "[]"]
    by (simp add: splitArgs_is_loop)
  have unterminated:
    "splitArgs (lead @ line_raw ps @ q # s) = splitArgs (lead @ line_raw ps @ q # s @ [q])"
    if "list_all is_space lead" and "well_separated ps" and "is_quote q" and "list_all (\<lambda>c. c \<noteq> q) s"
  proof -
    from loop_line_state [OF that(2), of "[]"] obtain args' cur' where
      st: "\<And>rest. splitArgs_loop (line_raw ps @ rest) [] [] None = splitArgs_loop rest args' cur' None"
      by blast
    have open_q: "splitArgs_loop (q # rest) args' cur' None = splitArgs_loop rest args' cur' (Some q)"
      for rest using that(3) by (auto simp add: is_quote_def)
    have "splitArgs (lead @ line_raw ps @ q # s) = splitArgs_loop s args' cur' (Some q)"
      using loop_spaces_empty [OF that(1), of "line_raw ps @ q # s" "[]"] st [of "q # s"] open_q [of s]
      by (simp add: splitArgs_is_loop)
    moreover have "splitArgs (lead @ line_raw ps @ q # s @ [q]) = splitArgs_loop (s @ [q]) args' cur' (Some q)"
      using loop_spaces_empty [OF that(1), of "line_raw ps @ q # s @ [q]" "[]"] st [of "q # s @ [q]"]
        open_q [of "s @ [q]"]
      by (simp add: splitArgs_is_loop)
    ultimately show ?thesis using loop_unterminated [OF that(4), of args' cur'] by simp
  qed
  have example: "splitArgs [CHR ''a'', squote, CHR ''b'', CHR '' '', CHR ''c'', squote, CHR ''d''] = [''ab cd'']"
    by (simp add: splitArgs_is_loop is_space_def squote_def dquote_def)
  show ?thesis
    using blank line unterminated splitArgs_one_quote_kind [of raw] example by blast
qed

theorem splitArgs_contract_witness:
  "list_all is_space [CHR '' '', CHR 0x09]
   \<and> splitArgs [CHR '' '', CHR 0x09] = []
   \<and> well_separated [([Plain ''--msg''], '' ''), ([Plain ''x='', Quoted dquote ''hello world''], [])]
   \<and> splitArgs ('' '' @ line_raw [([Plain ''--msg''], '' ''), ([Plain ''x='', Quoted dquote ''hello world''], [])])
       = [''--msg'', ''x=hello world'']
   \<and> is_quote squote \<and> list_all (\<lambda>c. c \<noteq> squote) ''b c''
   \<and> splitArgs ('' '' @ line_raw [([Plain ''--msg''], '' ''), ([Plain ''x='', Quoted dquote ''hello world''], [])] @ squote # ''b c'')
       = splitArgs ('' '' @ line_raw [([Plain ''--msg''], '' ''), ([Plain ''x='', Quoted dquote ''hello world''], [])] @ squote # ''b c'' @ [squote])
   \<and> dquote \<notin> set [CHR '' '', CHR 0x09]
   \<and> list_all (\<lambda>t. squote \<notin> set t \<and> dquote \<notin> set t) (splitArgs [CHR '' '', CHR 0x09])"
proof -
  have h1: "list_all is_space [CHR '' '', CHR 0x09]" by (simp add: is_space_def)
  have h2: "well_separated [([Plain ''--msg''], '' ''), ([Plain ''x='', Quoted dquote ''hello world''], [])]"
    by (simp add: valid_word_def is_space_def is_quote_def squote_def dquote_def)
  have h3: "list_all is_space '' ''" by (simp add: is_space_def)
  have h4: "is_quote squote" "list_all (\<lambda>c. c \<noteq> squote) ''b c''"
    by (simp_all add: is_quote_def squote_def)
  have h5: "dquote \<notin> set [CHR '' '', CHR 0x09]" by (simp add: dquote_def)
  have t: "text_of_word [Plain ''--msg''] = ''--msg''"
    "text_of_word [Plain ''x='', Quoted dquote ''hello world''] = ''x=hello world''"
    by (simp_all add: text_of_word_def)
  show ?thesis
    using h1 h2 h3 h4 h5
      splitArgs_contract [of "[CHR '' '', CHR 0x09]" "'' ''"
        "[([Plain ''--msg''], '' ''), ([Plain ''x='', Quoted dquote ''hello world''], [])]" squote "''b c''"]
    by (simp add: t)
qed

text \<open>
  Claim C2 as it is stated says that quote characters never appear in tokens. The raw
  string \<open>"it's"\<close> gives the token \<open>it's\<close>: a single quote inside a run in double
  quotes is text.
\<close>

theorem splitArgs_quote_in_token_counterexample:
  "splitArgs [dquote, CHR ''i'', CHR ''t'', squote, CHR ''s'', dquote] = [[CHR ''i'', CHR ''t'', squote, CHR ''s'']]"
  by (simp add: splitArgs_is_loop is_space_def squote_def dquote_def)

chapter \<open>The version id\<close>

section \<open>One attempt, and the first that succeeds\<close>

lemma span_exact:
  assumes "list_all P xs" and "ys = [] \<or> \<not> P (hd ys)"
  shows "takeWhile P (xs @ ys) = xs" and "dropWhile P (xs @ ys) = ys"
proof -
  from assms(1) have all: "\<And>x. x \<in> set xs \<Longrightarrow> P x" by (simp add: list_all_iff)
  from assms(2) have t: "takeWhile P ys = []" and d: "dropWhile P ys = ys"
    by (cases ys; simp)+
  from all t show "takeWhile P (xs @ ys) = xs" by simp
  from all d show "dropWhile P (xs @ ys) = ys" by simp
qed

lemma hex_not_space: "is_hex_or_hyphen c \<Longrightarrow> \<not> is_space c"
  by (auto simp add: is_hex_or_hyphen_def is_space_def)

lemma match_version_id_iff:
  "match_version_id s = Some ident \<longleftrightarrow> version_id_here s ident"
proof
  assume m: "match_version_id s = Some ident"
  let ?after = "drop (length version_label) s"
  let ?ws = "takeWhile is_space ?after"
  let ?r1 = "dropWhile is_space ?after"
  let ?rest = "dropWhile is_hex_or_hyphen ?r1"
  from m have lab: "take (length version_label) s = version_label"
    and ident: "ident = takeWhile is_hex_or_hyphen ?r1" and ne: "ident \<noteq> []"
    by (auto simp add: match_version_id_def js_startsWith_def Let_def split: if_splits)
  have "s = take (length version_label) s @ ?after" by simp
  also have "?after = ?ws @ ?r1" by simp
  also have "?r1 = ident @ ?rest" by (simp add: ident)
  finally have s: "s = version_label @ ?ws @ ident @ ?rest" by (simp add: lab)
  have ws: "list_all is_space ?ws"
    by (auto simp add: list_all_iff dest: set_takeWhileD)
  have id: "list_all is_hex_or_hyphen ident"
    by (auto simp add: ident list_all_iff dest: set_takeWhileD)
  have rest: "?rest = [] \<or> \<not> is_hex_or_hyphen (hd ?rest)"
    using hd_dropWhile [of is_hex_or_hyphen ?r1] by blast
  from s ws ne id rest show "version_id_here s ident"
    unfolding version_id_here_def by blast
next
  assume "version_id_here s ident"
  then obtain ws rest where s: "s = version_label @ ws @ ident @ rest"
    and ws: "list_all is_space ws" and ne: "ident \<noteq> []"
    and id: "list_all is_hex_or_hyphen ident"
    and rest: "rest = [] \<or> \<not> is_hex_or_hyphen (hd rest)"
    unfolding version_id_here_def by blast
  from ne id have "\<not> is_space (hd (ident @ rest))"
    by (cases ident) (simp_all add: hex_not_space)
  with ne have "ident @ rest = [] \<or> \<not> is_space (hd (ident @ rest))" by simp
  from span_exact(2) [OF ws this]
  have d: "dropWhile is_space (ws @ ident @ rest) = ident @ rest" .
  from span_exact(1) [OF id rest]
  have t: "takeWhile is_hex_or_hyphen (ident @ rest) = ident" .
  show "match_version_id s = Some ident"
    using ne by (simp add: match_version_id_def js_startsWith_def s d t)
qed

lemma match_version_id_Nil: "match_version_id [] = None"
  by (simp add: match_version_id_def js_startsWith_def version_label_def)

lemma parse_version_found:
  "parseVersionIdFromUpload out = Some v \<Longrightarrow>
   \<exists>i\<le>length out. match_version_id (drop i out) = Some v
      \<and> (\<forall>j<i. match_version_id (drop j out) = None)"
proof (induction out)
  case Nil
  then show ?case by simp
next
  case (Cons c cs)
  show ?case
  proof (cases "match_version_id (c # cs)")
    case (Some v')
    with Cons.prems have "match_version_id (drop 0 (c # cs)) = Some v" by simp
    then show ?thesis by blast
  next
    case None
    with Cons.prems have "parseVersionIdFromUpload cs = Some v" by simp
    from Cons.IH [OF this] obtain i where i: "i \<le> length cs"
      "match_version_id (drop i cs) = Some v" "\<forall>j<i. match_version_id (drop j cs) = None"
      by blast
    have "\<forall>j<Suc i. match_version_id (drop j (c # cs)) = None"
    proof (intro allI impI)
      fix j assume "j < Suc i"
      then show "match_version_id (drop j (c # cs)) = None"
        using None i(3) by (cases j) simp_all
    qed
    with i(1,2) have "Suc i \<le> length (c # cs) \<and> match_version_id (drop (Suc i) (c # cs)) = Some v
        \<and> (\<forall>j<Suc i. match_version_id (drop j (c # cs)) = None)"
      by simp
    then show ?thesis by blast
  qed
qed

lemma parse_version_first:
  "match_version_id (drop i out) = Some v \<Longrightarrow>
   \<forall>j<i. match_version_id (drop j out) = None \<Longrightarrow>
   parseVersionIdFromUpload out = Some v"
proof (induction out arbitrary: i)
  case Nil
  then show ?case by (simp add: match_version_id_Nil)
next
  case (Cons c cs)
  show ?case
  proof (cases i)
    case 0
    with Cons.prems(1) show ?thesis by simp
  next
    case (Suc i')
    with Cons.prems(2) have here: "match_version_id (c # cs) = None" by force
    from Cons.prems(1) Suc have m: "match_version_id (drop i' cs) = Some v" by simp
    have "\<forall>j<i'. match_version_id (drop j cs) = None"
    proof (intro allI impI)
      fix j assume "j < i'"
      with Suc have "Suc j < i" by simp
      with Cons.prems(2) have "match_version_id (drop (Suc j) (c # cs)) = None" by blast
      then show "match_version_id (drop j cs) = None" by simp
    qed
    from Cons.IH [OF m this] here show ?thesis by simp
  qed
qed

lemma parse_version_none:
  "parseVersionIdFromUpload out = None \<longleftrightarrow>
   (\<forall>i\<le>length out. match_version_id (drop i out) = None)"
proof (induction out)
  case Nil
  then show ?case by (simp add: match_version_id_Nil)
next
  case (Cons c cs)
  show ?case
  proof
    assume n: "parseVersionIdFromUpload (c # cs) = None"
    then have here: "match_version_id (c # cs) = None" and "parseVersionIdFromUpload cs = None"
      by (auto split: option.splits)
    with Cons.IH have rest: "\<forall>i\<le>length cs. match_version_id (drop i cs) = None" by simp
    show "\<forall>i\<le>length (c # cs). match_version_id (drop i (c # cs)) = None"
    proof (intro allI impI)
      fix i assume "i \<le> length (c # cs)"
      then show "match_version_id (drop i (c # cs)) = None"
        using here rest by (cases i) simp_all
    qed
  next
    assume a: "\<forall>i\<le>length (c # cs). match_version_id (drop i (c # cs)) = None"
    then have "match_version_id (drop 0 (c # cs)) = None" by blast
    then have here: "match_version_id (c # cs) = None" by simp
    have "\<forall>i\<le>length cs. match_version_id (drop i cs) = None"
    proof (intro allI impI)
      fix i assume "i \<le> length cs"
      then have "Suc i \<le> length (c # cs)" by simp
      with a have "match_version_id (drop (Suc i) (c # cs)) = None" by blast
      then show "match_version_id (drop i cs) = None" by simp
    qed
    with Cons.IH here show "parseVersionIdFromUpload (c # cs) = None" by simp
  qed
qed

lemma no_version_id_here_iff:
  "(\<forall>ident. \<not> version_id_here s ident) \<longleftrightarrow> match_version_id s = None"
  using match_version_id_iff [of s] by (cases "match_version_id s") auto

text \<open>
  Claim C3. For every captured text, \<open>parseVersionIdFromUpload\<close> returns an identifier
  exactly when the text has a place where the label \<open>Worker Version ID:\<close> (in this
  case of letters) is followed, after white space or none, by an identifier of hexadecimal
  digits and hyphens, and no earlier place of the text is such a place: it returns the
  identifier of the first place. It returns nothing exactly when the text has no such
  place. A text holding \<open>Worker Version ID: abc123-def\<close> gives \<open>abc123-def\<close>, and
  \<open>no id here\<close> gives nothing.
\<close>

theorem parseVersionIdFromUpload_first_match:
  "(parseVersionIdFromUpload out = Some ident \<longleftrightarrow>
      (\<exists>pre post. out = pre @ post \<and> version_id_here post ident
         \<and> (\<forall>i<length pre. \<forall>ident'. \<not> version_id_here (drop i out) ident')))
   \<and> (parseVersionIdFromUpload out = None \<longleftrightarrow>
      (\<forall>i\<le>length out. \<forall>ident'. \<not> version_id_here (drop i out) ident'))
   \<and> parseVersionIdFromUpload ''... Worker Version ID: abc123-def ...'' = Some ''abc123-def''
   \<and> parseVersionIdFromUpload ''no id here'' = None"
proof -
  have found: "parseVersionIdFromUpload out = Some ident \<longleftrightarrow>
      (\<exists>pre post. out = pre @ post \<and> version_id_here post ident
         \<and> (\<forall>i<length pre. \<forall>ident'. \<not> version_id_here (drop i out) ident'))"
  proof
    assume "parseVersionIdFromUpload out = Some ident"
    from parse_version_found [OF this] obtain i where i: "i \<le> length out"
      "match_version_id (drop i out) = Some ident" "\<forall>j<i. match_version_id (drop j out) = None"
      by blast
    have "out = take i out @ drop i out" by simp
    moreover from i(2) have "version_id_here (drop i out) ident"
      by (simp add: match_version_id_iff)
    moreover from i(1,3) have "\<forall>j<length (take i out). \<forall>ident'. \<not> version_id_here (drop j out) ident'"
      by (simp add: no_version_id_here_iff)
    ultimately show "\<exists>pre post. out = pre @ post \<and> version_id_here post ident
         \<and> (\<forall>i<length pre. \<forall>ident'. \<not> version_id_here (drop i out) ident')"
      by blast
  next
    assume "\<exists>pre post. out = pre @ post \<and> version_id_here post ident
         \<and> (\<forall>i<length pre. \<forall>ident'. \<not> version_id_here (drop i out) ident')"
    then obtain pre post where out: "out = pre @ post" and here: "version_id_here post ident"
      and first: "\<forall>i<length pre. \<forall>ident'. \<not> version_id_here (drop i out) ident'"
      by blast
    from out here have "match_version_id (drop (length pre) out) = Some ident"
      by (simp add: match_version_id_iff)
    moreover from first have "\<forall>j<length pre. match_version_id (drop j out) = None"
      by (simp add: no_version_id_here_iff)
    ultimately show "parseVersionIdFromUpload out = Some ident"
      by (rule parse_version_first)
  qed
  have none: "parseVersionIdFromUpload out = None \<longleftrightarrow>
      (\<forall>i\<le>length out. \<forall>ident'. \<not> version_id_here (drop i out) ident')"
    by (simp add: parse_version_none no_version_id_here_iff)
  have ex1: "parseVersionIdFromUpload ''... Worker Version ID: abc123-def ...'' = Some ''abc123-def''"
    by (simp add: match_version_id_def js_startsWith_def version_label_def is_space_def
        is_hex_or_hyphen_def)
  have ex2: "parseVersionIdFromUpload ''no id here'' = None"
    by (simp add: match_version_id_def js_startsWith_def version_label_def)
  from found none ex1 ex2 show ?thesis by blast
qed

theorem parseVersionIdFromUpload_first_match_witness:
  "version_id_here ''Worker Version ID: 0a-1 Worker Version ID: ff'' ''0a-1''
   \<and> parseVersionIdFromUpload (''id: '' @ ''Worker Version ID: 0a-1 Worker Version ID: ff'') = Some ''0a-1''
   \<and> parseVersionIdFromUpload ''Worker Version ID: none'' = None
   \<and> \<not> version_id_here (drop 0 ''Worker Version ID: none'') ''e''"
proof -
  let ?post = "''Worker Version ID: 0a-1 Worker Version ID: ff''"
  have m: "match_version_id ?post = Some ''0a-1''"
    by (simp add: match_version_id_def js_startsWith_def version_label_def is_space_def
        is_hex_or_hyphen_def)
  then have here: "version_id_here ?post ''0a-1''" by (simp add: match_version_id_iff)
  have first: "\<forall>i<length ''id: ''. \<forall>ident'. \<not> version_id_here (drop i (''id: '' @ ?post)) ident'"
  proof (intro allI impI)
    fix i :: nat and ident'
    assume "i < length ''id: ''"
    then have "i = 0 \<or> i = 1 \<or> i = 2 \<or> i = 3" by auto
    then have "match_version_id (drop i (''id: '' @ ?post)) = None"
      by (auto simp add: match_version_id_def js_startsWith_def version_label_def)
    then show "\<not> version_id_here (drop i (''id: '' @ ?post)) ident'"
      by (simp add: match_version_id_iff [symmetric])
  qed
  from here first have
    "\<exists>pre post. ''id: '' @ ?post = pre @ post \<and> version_id_here post ''0a-1''
       \<and> (\<forall>i<length pre. \<forall>ident'. \<not> version_id_here (drop i (''id: '' @ ?post)) ident')"
    by blast
  with parseVersionIdFromUpload_first_match [of "''id: '' @ ?post" "''0a-1''"]
  have found: "parseVersionIdFromUpload (''id: '' @ ?post) = Some ''0a-1''" by blast
  have none: "parseVersionIdFromUpload ''Worker Version ID: none'' = None"
    by (simp add: match_version_id_def js_startsWith_def version_label_def is_space_def
        is_hex_or_hyphen_def)
  with parseVersionIdFromUpload_first_match [of "''Worker Version ID: none''" "''e''"]
  have "\<forall>i\<le>length ''Worker Version ID: none''. \<forall>ident'.
          \<not> version_id_here (drop i ''Worker Version ID: none'') ident'"
    by blast
  then have "\<not> version_id_here (drop 0 ''Worker Version ID: none'') ''e''" by blast
  with here found none show ?thesis by blast
qed

chapter \<open>The default message\<close>

lemma sha_prefix: "(case x of None \<Rightarrow> [] | Some s \<Rightarrow> if s = [] then [] else take 6 s) = take 6 (js_or x [])"
  by (cases x) auto

text \<open>
  Claim C4. With \<open>b\<close> the branch when there is one, \<open>s\<close> the short sha (or, without
  one, the first six characters of the sha) and \<open>msg\<close> the short commit message (or,
  without one, the full one), the default message is the first 100 characters of
  \<open>b@s: msg\<close> when both \<open>b\<close> and \<open>s\<close> are there, of \<open>b: msg\<close> or \<open>s: msg\<close> when one
  of them is, and of \<open>msg\<close> when neither is (the message itself when it has no more than
  100 characters). It never has more than 100 characters. The branch \<open>main\<close>, the short sha
  \<open>a1b2c3\<close> and the short commit message \<open>fix bug\<close> give \<open>main@a1b2c3: fix bug\<close>.
\<close>

theorem buildDefaultMessage_shape:
  "(let b = js_or (branch meta) [];
        s = js_or (short_sha meta) (take 6 (js_or (sha meta) []));
        msg = js_or (short_commit_message meta) (js_or (commit_message meta) [])
    in (b \<noteq> [] \<and> s \<noteq> [] \<longrightarrow> buildDefaultMessage meta = take 100 (b @ ''@'' @ s @ '': '' @ msg))
     \<and> (b \<noteq> [] \<and> s = [] \<longrightarrow> buildDefaultMessage meta = take 100 (b @ '': '' @ msg))
     \<and> (b = [] \<and> s \<noteq> [] \<longrightarrow> buildDefaultMessage meta = take 100 (s @ '': '' @ msg))
     \<and> (b = [] \<and> s = [] \<longrightarrow> buildDefaultMessage meta = take 100 msg)
     \<and> (b = [] \<and> s = [] \<and> length msg \<le> 100 \<longrightarrow> buildDefaultMessage meta = msg))
   \<and> length (buildDefaultMessage meta) \<le> 100
   \<and> buildDefaultMessage
        (meta\<lparr>branch := Some ''main'', short_sha := Some ''a1b2c3'',
              short_commit_message := Some ''fix bug''\<rparr>) = ''main@a1b2c3: fix bug''"
proof -
  have len: "length (buildDefaultMessage meta) \<le> 100"
    by (simp add: buildDefaultMessage_def Let_def)
  have ex: "buildDefaultMessage
        (meta\<lparr>branch := Some ''main'', short_sha := Some ''a1b2c3'',
              short_commit_message := Some ''fix bug''\<rparr>) = ''main@a1b2c3: fix bug''"
    by (simp add: buildDefaultMessage_def Let_def)
  have shape: "(let b = js_or (branch meta) [];
        s = js_or (short_sha meta) (take 6 (js_or (sha meta) []));
        msg = js_or (short_commit_message meta) (js_or (commit_message meta) [])
    in (b \<noteq> [] \<and> s \<noteq> [] \<longrightarrow> buildDefaultMessage meta = take 100 (b @ ''@'' @ s @ '': '' @ msg))
     \<and> (b \<noteq> [] \<and> s = [] \<longrightarrow> buildDefaultMessage meta = take 100 (b @ '': '' @ msg))
     \<and> (b = [] \<and> s \<noteq> [] \<longrightarrow> buildDefaultMessage meta = take 100 (s @ '': '' @ msg))
     \<and> (b = [] \<and> s = [] \<longrightarrow> buildDefaultMessage meta = take 100 msg)
     \<and> (b = [] \<and> s = [] \<and> length msg \<le> 100 \<longrightarrow> buildDefaultMessage meta = msg))"
    by (simp add: buildDefaultMessage_def Let_def sha_prefix)
  from shape len ex show ?thesis by blast
qed

theorem buildDefaultMessage_shape_witness:
  "js_or (branch example_metadata) [] \<noteq> []
   \<and> js_or (short_sha example_metadata) (take 6 (js_or (sha example_metadata) [])) \<noteq> []
   \<and> buildDefaultMessage example_metadata = ''main@012345: fix bug''"
proof -
  have b: "js_or (branch example_metadata) [] = ''main''"
    and s: "js_or (short_sha example_metadata) (take 6 (js_or (sha example_metadata) [])) = ''012345''"
    and m: "js_or (short_commit_message example_metadata) (js_or (commit_message example_metadata) []) = ''fix bug''"
    by (simp_all add: example_metadata_def)
  from buildDefaultMessage_shape [of example_metadata]
  have "buildDefaultMessage example_metadata = take 100 (''main'' @ ''@'' @ ''012345'' @ '': '' @ ''fix bug'')"
    unfolding Let_def b s m by simp
  then show ?thesis by (simp add: b s)
qed

chapter \<open>The metadata\<close>

section \<open>Owner and repository name\<close>


lemma js_split_not_Nil: "js_split sep s \<noteq> []"
  by (induction s) (auto split: list.splits)

lemma js_split_first:
  "js_split sep s =
     takeWhile (\<lambda>c. c \<noteq> sep) s
     # (case dropWhile (\<lambda>c. c \<noteq> sep) s of [] \<Rightarrow> [] | c # r \<Rightarrow> js_split sep r)"
proof (induction s)
  case Nil
  then show ?case by simp
next
  case (Cons c cs)
  show ?case
  proof (cases "c = sep")
    case True
    then show ?thesis by simp
  next
    case False
    with Cons.IH show ?thesis by (cases "js_split sep cs") simp_all
  qed
qed

lemma js_index_split_0: "js_index (js_split sep s) 0 = Some (takeWhile (\<lambda>c. c \<noteq> sep) s)"
  by (subst js_split_first) simp

lemma dropWhile_no_sep: "sep \<notin> set s \<Longrightarrow> dropWhile (\<lambda>c. c \<noteq> sep) s = []"
  by (induction s) auto

lemma dropWhile_sep: "sep \<in> set s \<Longrightarrow> \<exists>r. dropWhile (\<lambda>c. c \<noteq> sep) s = sep # r"
  by (induction s) auto

lemma js_index_split_1:
  "js_index (js_split sep s) (Suc 0) =
     (if sep \<in> set s then Some (takeWhile (\<lambda>c. c \<noteq> sep) (tl (dropWhile (\<lambda>c. c \<noteq> sep) s)))
      else None)"
proof (cases "sep \<in> set s")
  case True
  from dropWhile_sep [OF this] obtain r where r: "dropWhile (\<lambda>c. c \<noteq> sep) s = sep # r" by blast
  have "js_index (js_split sep s) (Suc 0) = js_index (js_split sep r) 0"
    by (subst js_split_first) (simp add: r)
  with True r show ?thesis by (simp add: js_index_split_0)
next
  case False
  have "js_index (js_split sep s) (Suc 0) = None"
    by (subst js_split_first) (simp add: dropWhile_no_sep [OF False])
  with False show ?thesis by simp
qed

lemma destructure_repo_parts:
  assumes "r \<noteq> []"
  shows "destructure (repo_parts (Some r)) 0 = Some (before_slash r)"
    and "destructure (repo_parts (Some r)) (Suc 0) =
           (if CHR ''/'' \<in> set r then Some (before_slash (after_slash r)) else None)"
proof -
  have idx: "js_index (map Some xs) i = map_option Some (js_index xs i)" for xs :: "string list" and i
    by (induction xs i rule: js_index.induct) simp_all
  from assms show "destructure (repo_parts (Some r)) 0 = Some (before_slash r)"
    by (simp add: destructure_def repo_parts_def idx js_index_split_0 before_slash_def)
  from assms show "destructure (repo_parts (Some r)) (Suc 0) =
           (if CHR ''/'' \<in> set r then Some (before_slash (after_slash r)) else None)"
    by (simp add: destructure_def repo_parts_def idx js_index_split_1 before_slash_def
        after_slash_def)
qed

lemma destructure_no_repo:
  assumes "x = None \<or> x = Some []"
  shows "destructure (repo_parts x) 0 = None" and "destructure (repo_parts x) (Suc 0) = None"
  using assms by (auto simp add: destructure_def repo_parts_def)

lemma collect_owner_repo:
  "owner (collectMetadata env git) = destructure (repo_parts (env ''GITHUB_REPOSITORY'')) 0"
  "repo (collectMetadata env git) = destructure (repo_parts (env ''GITHUB_REPOSITORY'')) (Suc 0)"
  "owner (collectDeployMetadata env git) = destructure (repo_parts (env ''GITHUB_REPOSITORY'')) 0"
  "repo (collectDeployMetadata env git) = destructure (repo_parts (env ''GITHUB_REPOSITORY'')) (Suc 0)"
  by (simp_all add: collectMetadata_def collectDeployMetadata_def Let_def)

text \<open>
  Claim C8, amended. For every non-empty value of \<open>GITHUB_REPOSITORY\<close>, both collectors
  split it at every slash and keep the first two pieces: the owner is the text before the
  first slash, and the repository name is the text between the first slash and the second
  (up to the end when there is no second slash), absent when the value has no slash. For a
  value \<open>owner/name\<close> with its one slash that is the owner and the whole remainder. When the
  variable is not set or empty, both are absent.
\<close>

theorem owner_repo_split:
  "(env ''GITHUB_REPOSITORY'' = Some r \<and> r \<noteq> [] \<longrightarrow>
      owner (collectMetadata env git) = Some (before_slash r)
      \<and> repo (collectMetadata env git) =
          (if CHR ''/'' \<in> set r then Some (before_slash (after_slash r)) else None)
      \<and> owner (collectDeployMetadata env git) = owner (collectMetadata env git)
      \<and> repo (collectDeployMetadata env git) = repo (collectMetadata env git))
   \<and> (env ''GITHUB_REPOSITORY'' = Some (ow @ ''/'' @ nm) \<and> CHR ''/'' \<notin> set ow \<and> CHR ''/'' \<notin> set nm \<longrightarrow>
      owner (collectMetadata env git) = Some ow \<and> repo (collectMetadata env git) = Some nm)
   \<and> (env ''GITHUB_REPOSITORY'' = None \<or> env ''GITHUB_REPOSITORY'' = Some [] \<longrightarrow>
      owner (collectMetadata env git) = None \<and> repo (collectMetadata env git) = None
      \<and> owner (collectDeployMetadata env git) = None \<and> repo (collectDeployMetadata env git) = None)"
proof -
  have general: "owner (collectMetadata env git) = Some (before_slash r)
      \<and> repo (collectMetadata env git) =
          (if CHR ''/'' \<in> set r then Some (before_slash (after_slash r)) else None)
      \<and> owner (collectDeployMetadata env git) = owner (collectMetadata env git)
      \<and> repo (collectDeployMetadata env git) = repo (collectMetadata env git)"
    if "env ''GITHUB_REPOSITORY'' = Some r" and "r \<noteq> []"
    using that by (simp add: collect_owner_repo destructure_repo_parts)
  have one_slash: "owner (collectMetadata env git) = Some ow \<and> repo (collectMetadata env git) = Some nm"
    if v: "env ''GITHUB_REPOSITORY'' = Some (ow @ ''/'' @ nm)"
      and ow: "CHR ''/'' \<notin> set ow" and nm: "CHR ''/'' \<notin> set nm"
  proof -
    have all_o: "\<And>x. x \<in> set ow \<Longrightarrow> x \<noteq> CHR ''/''" using ow by blast
    have all_n: "\<And>x. x \<in> set nm \<Longrightarrow> x \<noteq> CHR ''/''" using nm by blast
    have b: "before_slash (ow @ CHR ''/'' # nm) = ow"
      using all_o by (simp add: before_slash_def)
    have a: "after_slash (ow @ CHR ''/'' # nm) = nm"
      using all_o by (simp add: after_slash_def)
    have bn: "before_slash nm = nm"
      using all_n by (simp add: before_slash_def)
    show ?thesis
      using v by (simp add: collect_owner_repo destructure_repo_parts a b bn)
  qed
  have unset: "owner (collectMetadata env git) = None \<and> repo (collectMetadata env git) = None
      \<and> owner (collectDeployMetadata env git) = None \<and> repo (collectDeployMetadata env git) = None"
    if "env ''GITHUB_REPOSITORY'' = None \<or> env ''GITHUB_REPOSITORY'' = Some []"
    using destructure_no_repo [OF that] by (simp add: collect_owner_repo)
  from general one_slash unset show ?thesis by blast
qed

theorem owner_repo_split_witness:
  "owner (collectMetadata [''GITHUB_REPOSITORY'' \<mapsto> ''octo/site''] ([], Exit 0)) = Some ''octo''
   \<and> repo (collectMetadata [''GITHUB_REPOSITORY'' \<mapsto> ''octo/site''] ([], Exit 0)) = Some ''site''
   \<and> repo (collectDeployMetadata [''GITHUB_REPOSITORY'' \<mapsto> ''octo/site''] ([], Exit 0)) = Some ''site''
   \<and> owner (collectMetadata Map.empty ([], Exit 0)) = None
   \<and> repo (collectMetadata Map.empty ([], Exit 0)) = None"
proof -
  let ?env = "[''GITHUB_REPOSITORY'' \<mapsto> ''octo/site'']"
  have set: "?env ''GITHUB_REPOSITORY'' = Some (''octo'' @ ''/'' @ ''site'')" by simp
  have ne: "''octo'' @ ''/'' @ ''site'' \<noteq> []" by simp
  have slash: "CHR ''/'' \<notin> set ''octo''" "CHR ''/'' \<notin> set ''site''" by simp_all
  have unset: "(Map.empty :: string \<Rightarrow> string option) ''GITHUB_REPOSITORY'' = None" by simp
  from owner_repo_split [of ?env "''octo'' @ ''/'' @ ''site''" "([], Exit 0)" "''octo''" "''site''"]
    set ne slash
  have "owner (collectMetadata ?env ([], Exit 0)) = Some ''octo''
      \<and> repo (collectMetadata ?env ([], Exit 0)) = Some ''site''
      \<and> repo (collectDeployMetadata ?env ([], Exit 0)) = repo (collectMetadata ?env ([], Exit 0))"
    by blast
  moreover from owner_repo_split [of Map.empty "[]" "([], Exit 0)" "[]" "[]"] unset
  have "owner (collectMetadata Map.empty ([], Exit 0)) = None
      \<and> repo (collectMetadata Map.empty ([], Exit 0)) = None"
    by blast
  ultimately show ?thesis by simp
qed

text \<open>
  Claim C8 as it is stated gives the repository name as all that follows the first slash.
  For the value \<open>a/b/c\<close> that is \<open>b/c\<close>; both collectors give \<open>b\<close>.
\<close>

theorem repo_name_second_slash_counterexample:
  "repo (collectMetadata [''GITHUB_REPOSITORY'' \<mapsto> ''a/b/c''] ([], Exit 0)) = Some ''b''
   \<and> repo (collectDeployMetadata [''GITHUB_REPOSITORY'' \<mapsto> ''a/b/c''] ([], Exit 0)) = Some ''b''
   \<and> after_slash ''a/b/c'' = ''b/c''"
  by (simp add: collectMetadata_def collectDeployMetadata_def Let_def repo_parts_def
      destructure_def after_slash_def)


section \<open>The short commit message\<close>

lemma getLastCommitMessage_nonempty: "getLastCommitMessage git \<noteq> Some []"
  by (auto simp add: getLastCommitMessage_def Let_def split: exec_end.splits)

lemma collect_commit_message:
  "commit_message (collectMetadata env git) = getLastCommitMessage git"
  "commit_message (collectDeployMetadata env git) = getLastCommitMessage git"
  by (simp_all add: collectMetadata_def collectDeployMetadata_def Let_def)

lemma collectDeployMetadata_short_commit_message:
  "short_commit_message (collectDeployMetadata env git) =
     map_option (\<lambda>m. js_trim (first_line m)) (commit_message (collectDeployMetadata env git))"
  using getLastCommitMessage_nonempty [of git]
  by (cases "getLastCommitMessage git")
    (simp_all add: collectDeployMetadata_def Let_def js_index_split_0 first_line_def)

lemma collectMetadata_short_commit_message:
  "short_commit_message (collectMetadata env git) =
     map_option first_line (commit_message (collectMetadata env git))"
  using getLastCommitMessage_nonempty [of git]
  by (cases "getLastCommitMessage git")
    (simp_all add: collectMetadata_def Let_def js_index_split_0 first_line_def)

text \<open>
  Claim C9 at a commit message whose first line ends with white space. \<open>collectMetadata\<close>,
  which \<open>run\<close> calls, returns the first line as it is, \<open>fix bug\<close> and two spaces; the
  claim says the first line trimmed, \<open>fix bug\<close>, which is what
  \<open>collectDeployMetadata\<close> returns.
\<close>

theorem collectMetadata_first_line_untrimmed:
  "commit_message (collectMetadata env two_line_log) = Some (''fix bug  '' @ [CHR 0x0A] @ ''body'')
   \<and> short_commit_message (collectMetadata env two_line_log) = Some ''fix bug  ''
   \<and> js_trim (first_line (''fix bug  '' @ [CHR 0x0A] @ ''body'')) = ''fix bug''
   \<and> short_commit_message (collectDeployMetadata env two_line_log) = Some ''fix bug''"
  by (simp add: collectMetadata_def collectDeployMetadata_def Let_def two_line_log_def
      getLastCommitMessage_def stdout_text_def js_trim_def js_trimStart_def js_trimEnd_def
      is_space_def first_line_def)

chapter \<open>The run\<close>

section \<open>The run, phase by phase\<close>

lemma js_trim_Nil [simp]: "js_trim [] = []"
  by (simp add: js_trim_def js_trimEnd_def js_trimStart_def)

lemma stream_quiet [simp]:
  "filter is_failure (map stream_event cs) = []"
  "filter is_output (map stream_event cs) = []"
  "filter is_upload (map stream_event cs) = []"
  "filter is_deploy (map stream_event cs) = []"
  "filter (publishes name) (map stream_event cs) = []"
proof -
  have q: "\<not> is_failure (stream_event c) \<and> \<not> is_output (stream_event c)
           \<and> \<not> is_upload (stream_event c) \<and> \<not> is_deploy (stream_event c)
           \<and> \<not> publishes name (stream_event c)" for c
    by (cases c) simp_all
  show "filter is_failure (map stream_event cs) = []"
    "filter is_output (map stream_event cs) = []"
    "filter is_upload (map stream_event cs) = []"
    "filter is_deploy (map stream_event cs) = []"
    "filter (publishes name) (map stream_event cs) = []"
    using q by (simp_all add: filter_empty_conv)
qed

lemma publish_quiet [simp]:
  "filter is_failure (publish_message_tag m t) = []"
  "filter is_upload (publish_message_tag m t) = []"
  "filter is_deploy (publish_message_tag m t) = []"
  "filter (publishes ''version_id'') (publish_message_tag m t) = []"
  by (simp_all add: publish_message_tag_def)

lemma js_or_Some_Nil [simp]: "js_or (Some s) [] = s"
  by simp

lemma prelude_quiet [simp]:
  "filter is_failure (prelude w) = []"
  "filter is_output (prelude w) = []"
  "filter is_upload (prelude w) = []"
  "filter is_deploy (prelude w) = []"
  "filter (publishes name) (prelude w) = []"
  by (simp_all add: prelude_def git_args_def)

lemma run_accepted:
  assumes "inputs_accepted w"
  shows "run w = prelude w
           @ run_upload w (js_trim (w_inputs w ''api_token''))
               (js_trim (js_trim (w_inputs w ''wrangler_command''))) (workingDirectory_of w)
               (upload_only w) (js_trim (w_inputs w ''config''))
               (splitArgs (getInput (w_inputs w) ''upload_args''))
               (splitArgs (getInput (w_inputs w) ''deploy_args''))
               (renderedMessage_of w) (renderedTag_of w)"
proof -
  from assms have tok: "w_inputs w ''api_token'' \<noteq> []" "js_trim (w_inputs w ''api_token'') \<noteq> []"
    and cmd: "w_inputs w ''wrangler_command'' \<noteq> []" and cfg: "w_inputs w ''config'' \<noteq> []"
    by (auto simp add: inputs_accepted_def)
  show ?thesis
    unfolding run_def getInput_required_def
    using tok cmd cfg
    by (simp add: Let_def prelude_def upload_only_def renderedMessage_of_def renderedTag_of_def
        workingDirectory_of_def)
qed

lemma parseVersionId_nonempty: "parseVersionIdFromUpload out \<noteq> Some []"
proof
  assume "parseVersionIdFromUpload out = Some []"
  from parse_version_found [OF this] obtain i where "match_version_id (drop i out) = Some []"
    by blast
  then show False by (simp add: match_version_id_iff version_id_here_def)
qed

lemma run_upload_failed:
  assumes "snd (w_upload w) = Exit code" and "code \<noteq> 0"
  shows "run_upload w tok cmd cwd only cfg ua da msg tag =
     [Info (''Running upload: '' @ cmd @ '' ''
        @ js_join '' '' ([''versions'', ''upload'', ''--config'', cfg] @ ua @ [''--message='' @ msg])),
      Exec cmd ([''versions'', ''upload'', ''--config'', cfg] @ ua @ [''--message='' @ msg]) cwd (Some tok)]
     @ map stream_event (fst (w_upload w))
     @ [SetFailed (upload_failed_message code)]"
  using assms by (simp add: run_upload_def Let_def upload_failed_message_def)

lemma run_upload_rejected:
  assumes "snd (w_upload w) = Rejected e"
  shows "run_upload w tok cmd cwd only cfg ua da msg tag =
     [Info (''Running upload: '' @ cmd @ '' ''
        @ js_join '' '' ([''versions'', ''upload'', ''--config'', cfg] @ ua @ [''--message='' @ msg])),
      Exec cmd ([''versions'', ''upload'', ''--config'', cfg] @ ua @ [''--message='' @ msg]) cwd (Some tok)]
     @ map stream_event (fst (w_upload w))
     @ [SetFailed (if e = [] then ''Error'' else e)]"
  using assms by (simp add: run_upload_def Let_def catch_error_def)

lemma run_upload_no_id:
  assumes "snd (w_upload w) = Exit 0"
    and "parseVersionIdFromUpload (stdout_text (fst (w_upload w))) = None"
  shows "run_upload w tok cmd cwd only cfg ua da msg tag =
     [Info (''Running upload: '' @ cmd @ '' ''
        @ js_join '' '' ([''versions'', ''upload'', ''--config'', cfg] @ ua @ [''--message='' @ msg])),
      Exec cmd ([''versions'', ''upload'', ''--config'', cfg] @ ua @ [''--message='' @ msg]) cwd (Some tok)]
     @ map stream_event (fst (w_upload w))
     @ (if only then
          Info ''only_upload=true and no Worker Version ID could be parsed; exiting successfully.''
          # publish_message_tag msg tag
        else [SetFailed ''Failed to parse Worker Version ID from wrangler versions upload output.''])"
  using assms by (simp add: run_upload_def Let_def)

lemma run_upload_with_id:
  assumes "snd (w_upload w) = Exit 0"
    and "parseVersionIdFromUpload (stdout_text (fst (w_upload w))) = Some v"
  shows "run_upload w tok cmd cwd only cfg ua da msg tag =
     [Info (''Running upload: '' @ cmd @ '' ''
        @ js_join '' '' ([''versions'', ''upload'', ''--config'', cfg] @ ua @ [''--message='' @ msg])),
      Exec cmd ([''versions'', ''upload'', ''--config'', cfg] @ ua @ [''--message='' @ msg]) cwd (Some tok)]
     @ map stream_event (fst (w_upload w))
     @ (if only then
          [Info (''Parsed Worker Version ID (only_upload=true): '' @ v), SetOutput ''version_id'' v]
          @ publish_message_tag msg tag
        else Info (''Parsed Worker Version ID: '' @ v)
             # run_deploy w tok cmd cwd cfg da msg tag v)"
proof -
  from assms(2) parseVersionId_nonempty [of "stdout_text (fst (w_upload w))"] have "v \<noteq> []"
    by auto
  with assms show ?thesis by (simp add: run_upload_def Let_def)
qed

lemma run_deploy_invocations:
  "filter is_upload (run_deploy w tok cmd cwd cfg da msg tag v) = []"
  "filter is_deploy (run_deploy w tok cmd cwd cfg da msg tag v) =
     [Exec cmd ([''versions'', ''deploy'', v, ''-y'', ''--config'', cfg] @ da @ [''--message='' @ msg])
        cwd (Some tok)]"
  by (simp_all add: run_deploy_def Let_def catch_error_def split: exec_end.splits option.splits)

lemma run_upload_invocation:
  "filter is_upload (run_upload w tok cmd cwd only cfg ua da msg tag) =
     [Exec cmd ([''versions'', ''upload'', ''--config'', cfg] @ ua @ [''--message='' @ msg])
        cwd (Some tok)]"
  by (simp add: run_upload_def Let_def catch_error_def run_deploy_invocations
      split: exec_end.splits option.splits)

lemma config_passed_to_upload:
  assumes "inputs_accepted w"
  shows "filter is_upload (run w) =
     [Exec (js_trim (js_trim (w_inputs w ''wrangler_command'')))
        ([''versions'', ''upload'', ''--config'', js_trim (w_inputs w ''config'')]
         @ splitArgs (getInput (w_inputs w) ''upload_args'')
         @ [''--message='' @ renderedMessage_of w])
        (workingDirectory_of w) (Some (js_trim (w_inputs w ''api_token'')))]"
  by (simp add: run_accepted [OF assms] run_upload_invocation)

lemma config_passed_to_deploy:
  assumes "inputs_accepted w" and "snd (w_upload w) = Exit 0"
    and "parseVersionIdFromUpload (stdout_text (fst (w_upload w))) = Some v"
    and "\<not> upload_only w"
  shows "filter is_deploy (run w) =
     [Exec (js_trim (js_trim (w_inputs w ''wrangler_command'')))
        ([''versions'', ''deploy'', v, ''-y'', ''--config'', js_trim (w_inputs w ''config'')]
         @ splitArgs (getInput (w_inputs w) ''deploy_args'')
         @ [''--message='' @ renderedMessage_of w])
        (workingDirectory_of w) (Some (js_trim (w_inputs w ''api_token'')))]"
  using assms(4)
  by (simp add: run_accepted [OF assms(1)] run_upload_with_id [OF assms(2,3)]
      run_deploy_invocations)

lemma upload_started_iff: "filter is_upload (run w) \<noteq> [] \<longleftrightarrow> inputs_accepted w"
proof (cases "inputs_accepted w")
  case True
  then show ?thesis by (simp add: config_passed_to_upload)
next
  case False
  then have "filter is_upload (run w) = []"
    by (auto simp add: inputs_accepted_def run_def getInput_required_def catch_error_def Let_def)
  with False show ?thesis by simp
qed

lemma example_inputs_accepted:
  "inputs_accepted (example_world\<lparr>w_upload := u\<rparr>)"
  "inputs_accepted (example_world\<lparr>w_inputs := example_inputs(''only_upload'' := ''true''), w_upload := u\<rparr>)"
  by (simp_all add: inputs_accepted_def example_world_def example_inputs_def js_trim_def
      js_trimEnd_def js_trimStart_def is_space_def)

lemma example_upload_only:
  "\<not> upload_only (example_world\<lparr>w_upload := u\<rparr>)"
  "upload_only (example_world\<lparr>w_inputs := example_inputs(''only_upload'' := ''true''), w_upload := u\<rparr>)"
  by (simp_all add: upload_only_def example_world_def example_inputs_def getInput_def js_trim_def
      js_trimEnd_def js_trimStart_def is_space_def js_toLowerCase_def js_lower_char_def Let_def)

text \<open>
  The whole trace of the run in the example world (full mode, both processes succeed):
  the version id and the URL are published and the run is not marked as failed.
\<close>

lemma run_example_world:
  "run example_world =
     [Exec ''git'' [''log'', ''-1'', ''--pretty=%B''] None None,
      Info ''Repository: octo/site | Branch: main | SHA: 0123456789abcdef | Actor: dev | Run: #? (ID: ?)'',
      Info ''Using deployment message: main@0123456: fix bug'',
      Info ''Running upload: npx wrangler versions upload --config wrangler.toml --message=main@0123456: fix bug'',
      Exec ''npx wrangler''
        [''versions'', ''upload'', ''--config'', ''wrangler.toml'', ''--message=main@0123456: fix bug'']
        None (Some ''secret''),
      Info ''Uploaded. Worker Version ID: 0a1b-2c'',
      Info ''Parsed Worker Version ID: 0a1b-2c'',
      Info ''Running deploy: npx wrangler versions deploy 0a1b-2c -y --config wrangler.toml --message=main@0123456: fix bug'',
      Exec ''npx wrangler''
        [''versions'', ''deploy'', ''0a1b-2c'', ''-y'', ''--config'', ''wrangler.toml'',
         ''--message=main@0123456: fix bug'']
        None (Some ''secret''),
      Info ''Deployed to https://site.example.dev now'',
      Info ''Detected deployment URL: https://site.example.dev'',
      SetOutput ''deployment_url'' ''https://site.example.dev'',
      SetOutput ''version_id'' ''0a1b-2c'',
      SetOutput ''message'' ''main@0123456: fix bug'']"
  by code_simp

section \<open>Numbers in messages\<close>

lemma digit_char_facts:
  assumes "d < 10"
  shows "is_digit (digit_char d)" and "of_char (digit_char d) - 48 = d"
    and "digit_char d = CHR ''0'' \<longleftrightarrow> d = 0"
proof -
  from assms have "d = 0 \<or> d = 1 \<or> d = 2 \<or> d = 3 \<or> d = 4 \<or> d = 5 \<or> d = 6 \<or> d = 7 \<or> d = 8 \<or> d = 9"
    by arith
  then show "is_digit (digit_char d)" and "of_char (digit_char d) - 48 = d"
    and "digit_char d = CHR ''0'' \<longleftrightarrow> d = 0"
    by (auto simp add: digit_char_def is_digit_def)
qed

lemma show_nat_small: "n < 10 \<Longrightarrow> show_nat n = [digit_char n]"
  by (simp add: show_nat.simps)

lemma show_nat_large:
  "\<not> n < 10 \<Longrightarrow> show_nat n = show_nat (n div 10) @ [digit_char (n mod 10)]"
  by (subst show_nat.simps) simp

lemma show_nat_not_Nil: "show_nat n \<noteq> []"
  by (cases "n < 10") (simp_all add: show_nat_small show_nat_large)

lemma show_nat_digits: "list_all is_digit (show_nat n)"
proof (induction n rule: show_nat.induct)
  case (1 n)
  show ?case
  proof (cases "n < 10")
    case True
    then show ?thesis by (simp add: show_nat_small digit_char_facts)
  next
    case False
    with "1.IH" show ?thesis by (simp add: show_nat_large digit_char_facts)
  qed
qed

lemma decimal_nat_snoc: "decimal_nat (s @ [c]) = 10 * decimal_nat s + (of_char c - 48)"
  by (simp add: decimal_nat_def)

lemma decimal_nat_show_nat: "decimal_nat (show_nat n) = n"
proof (induction n rule: show_nat.induct)
  case (1 n)
  show ?case
  proof (cases "n < 10")
    case True
    then show ?thesis by (simp add: show_nat_small decimal_nat_def digit_char_facts)
  next
    case False
    with "1.IH" show ?thesis
      by (simp add: show_nat_large decimal_nat_snoc digit_char_facts)
  qed
qed

lemma hd_show_nat: "hd (show_nat n) = CHR ''0'' \<longleftrightarrow> n = 0"
proof (induction n rule: show_nat.induct)
  case (1 n)
  show ?case
  proof (cases "n < 10")
    case True
    then show ?thesis by (simp add: show_nat_small digit_char_facts)
  next
    case False
    then have "n div 10 \<noteq> 0" by simp
    with False "1.IH" show ?thesis
      by (simp add: show_nat_large show_nat_not_Nil)
  qed
qed

lemma show_nat_0: "show_nat n = ''0'' \<longleftrightarrow> n = 0"
proof
  assume "show_nat n = ''0''"
  then have "hd (show_nat n) = CHR ''0''" by simp
  then show "n = 0" by (simp add: hd_show_nat)
next
  assume "n = 0"
  then show "show_nat n = ''0''" by (simp add: show_nat_small digit_char_def)
qed

lemma is_numeral_show_nat: "is_numeral (show_nat n)"
  using hd_show_nat [of n] show_nat_0 [of n]
  by (auto simp add: is_numeral_def show_nat_not_Nil show_nat_digits)

lemma show_int_decimal: "is_decimal_of (show_int i) i"
proof (cases "i < 0")
  case True
  then have "nat (- i) \<noteq> 0" by simp
  with True show ?thesis
    by (simp add: is_decimal_of_def show_int_def is_numeral_show_nat decimal_nat_show_nat
        show_nat_0)
next
  case False
  then show ?thesis
    by (simp add: is_decimal_of_def show_int_def is_numeral_show_nat decimal_nat_show_nat)
qed

section \<open>Failures of the upload, and a missing version id\<close>

lemma exec_settles_rejects:
  "code \<noteq> 0 \<Longrightarrow> exec_settles toolPath code = Rejected (exec_rejection_message toolPath code)"
  by (simp add: exec_settles_def)

lemma exec_rejection_message_not_Nil: "exec_rejection_message toolPath code \<noteq> []"
  by (simp add: exec_rejection_message_def)

text \<open>
  Claim C6. In every run whose inputs are accepted and whose upload exits with a code other
  than 0, \<open>exec.exec\<close> rejects with the library's message, which ends with the exit code,
  and the \<open>catch\<close> of \<open>run\<close> marks the run as failed once with that message; that is the
  last thing the run does, no deploy is started, the upload is started once (no retry), and
  no output is published. The same four facts hold with the message of \<open>run\<close>'s own
  check of the exit code, should \<open>exec.exec\<close> return a code other than 0, and with the
  message of any other rejection. In both messages the code is written by \<open>show_int\<close>,
  which gives the decimal numeral of the code.
\<close>

theorem upload_failure_is_fatal:
  "(inputs_accepted w \<and> snd (w_upload w) = exec_settles toolPath code \<and> code \<noteq> 0 \<longrightarrow>
      filter is_failure (run w) = [SetFailed (exec_rejection_message toolPath code)]
      \<and> last (run w) = SetFailed (exec_rejection_message toolPath code)
      \<and> filter is_deploy (run w) = []
      \<and> length (filter is_upload (run w)) = 1
      \<and> filter is_output (run w) = [])
   \<and> (inputs_accepted w \<and> snd (w_upload w) = Exit code \<and> code \<noteq> 0 \<longrightarrow>
      filter is_failure (run w) = [SetFailed (upload_failed_message code)]
      \<and> last (run w) = SetFailed (upload_failed_message code)
      \<and> filter is_deploy (run w) = []
      \<and> length (filter is_upload (run w)) = 1
      \<and> filter is_output (run w) = [])
   \<and> (inputs_accepted w \<and> snd (w_upload w) = Rejected e \<longrightarrow>
      filter is_failure (run w) = [SetFailed (if e = [] then ''Error'' else e)]
      \<and> last (run w) = SetFailed (if e = [] then ''Error'' else e)
      \<and> filter is_deploy (run w) = []
      \<and> length (filter is_upload (run w)) = 1
      \<and> filter is_output (run w) = [])
   \<and> exec_rejection_message toolPath code =
        ''The process '' @ [squote] @ toolPath @ [squote] @ '' failed with exit code ''
        @ show_int code
   \<and> upload_failed_message code =
        ''wrangler versions upload failed with exit code '' @ show_int code
        @ ''. See logs above for details.''
   \<and> is_decimal_of (show_int code) code"
proof -
  have rejected: "filter is_failure (run w) = [SetFailed (if e = [] then ''Error'' else e)]
      \<and> last (run w) = SetFailed (if e = [] then ''Error'' else e)
      \<and> filter is_deploy (run w) = []
      \<and> length (filter is_upload (run w)) = 1
      \<and> filter is_output (run w) = []"
    if "inputs_accepted w" and "snd (w_upload w) = Rejected e" for e
    by (simp add: run_accepted [OF that(1)] run_upload_rejected [OF that(2)])
  have library: "filter is_failure (run w) = [SetFailed (exec_rejection_message toolPath code)]
      \<and> last (run w) = SetFailed (exec_rejection_message toolPath code)
      \<and> filter is_deploy (run w) = []
      \<and> length (filter is_upload (run w)) = 1
      \<and> filter is_output (run w) = []"
    if ok: "inputs_accepted w" and up: "snd (w_upload w) = exec_settles toolPath code"
      and code: "code \<noteq> 0"
  proof -
    from up code have "snd (w_upload w) = Rejected (exec_rejection_message toolPath code)"
      by (simp add: exec_settles_rejects)
    from rejected [OF ok this] show ?thesis
      by (simp add: exec_rejection_message_not_Nil)
  qed
  have exited: "filter is_failure (run w) = [SetFailed (upload_failed_message code)]
      \<and> last (run w) = SetFailed (upload_failed_message code)
      \<and> filter is_deploy (run w) = []
      \<and> length (filter is_upload (run w)) = 1
      \<and> filter is_output (run w) = []"
    if "inputs_accepted w" and "snd (w_upload w) = Exit code" and "code \<noteq> 0"
    by (simp add: run_accepted [OF that(1)] run_upload_failed [OF that(2,3)])
  from library exited rejected [of e] show ?thesis
    by (simp add: upload_failed_message_def exec_rejection_message_def show_int_decimal)
qed

theorem upload_failure_is_fatal_witness:
  "inputs_accepted (example_world\<lparr>w_upload := ([Stderr ''denied''], exec_settles ''/usr/bin/npx'' 2)\<rparr>)
   \<and> (2 :: int) \<noteq> 0
   \<and> snd (w_upload (example_world\<lparr>w_upload := ([Stderr ''denied''], exec_settles ''/usr/bin/npx'' 2)\<rparr>))
       = Rejected (''The process '' @ [squote] @ ''/usr/bin/npx'' @ [squote] @ '' failed with exit code 2'')
   \<and> filter is_failure
        (run (example_world\<lparr>w_upload := ([Stderr ''denied''], exec_settles ''/usr/bin/npx'' 2)\<rparr>)) =
       [SetFailed (''The process '' @ [squote] @ ''/usr/bin/npx'' @ [squote] @ '' failed with exit code 2'')]
   \<and> filter is_output
        (run (example_world\<lparr>w_upload := ([Stderr ''denied''], exec_settles ''/usr/bin/npx'' 2)\<rparr>)) = []
   \<and> filter is_deploy
        (run (example_world\<lparr>w_upload := ([Stderr ''denied''], exec_settles ''/usr/bin/npx'' 2)\<rparr>)) = []
   \<and> length (filter is_upload
        (run (example_world\<lparr>w_upload := ([Stderr ''denied''], exec_settles ''/usr/bin/npx'' 2)\<rparr>))) = 1
   \<and> is_decimal_of ''2'' 2
   \<and> filter is_failure (run (example_world\<lparr>w_upload := ([Stderr ''denied''], Exit 2)\<rparr>)) =
       [SetFailed ''wrangler versions upload failed with exit code 2. See logs above for details.'']
   \<and> filter is_failure (run (example_world\<lparr>w_upload := ([], Rejected ''spawn ENOENT'')\<rparr>)) =
       [SetFailed ''spawn ENOENT'']"
proof -
  let ?w = "example_world\<lparr>w_upload := ([Stderr ''denied''], exec_settles ''/usr/bin/npx'' 2)\<rparr>"
  let ?x = "example_world\<lparr>w_upload := ([Stderr ''denied''], Exit 2)\<rparr>"
  let ?r = "example_world\<lparr>w_upload := ([], Rejected ''spawn ENOENT'')\<rparr>"
  have two: "show_int 2 = ''2''"
    by (simp add: show_int_def show_nat.simps digit_char_def)
  have h: "inputs_accepted ?w" "snd (w_upload ?w) = exec_settles ''/usr/bin/npx'' 2" "(2 :: int) \<noteq> 0"
    by (simp_all add: example_inputs_accepted)
  have hx: "inputs_accepted ?x" "snd (w_upload ?x) = Exit 2"
    by (simp_all add: example_inputs_accepted)
  have hr: "inputs_accepted ?r" "snd (w_upload ?r) = Rejected ''spawn ENOENT''"
    by (simp_all add: example_inputs_accepted)
  have settled: "snd (w_upload ?w) =
      Rejected (''The process '' @ [squote] @ ''/usr/bin/npx'' @ [squote] @ '' failed with exit code 2'')"
    by (simp add: exec_settles_def exec_rejection_message_def two)
  from upload_failure_is_fatal [of ?w "''/usr/bin/npx''" 2 "[]"] h
  have lib: "filter is_failure (run ?w) = [SetFailed (exec_rejection_message ''/usr/bin/npx'' 2)]
      \<and> filter is_deploy (run ?w) = [] \<and> length (filter is_upload (run ?w)) = 1
      \<and> filter is_output (run ?w) = [] \<and> is_decimal_of (show_int 2) 2"
    by blast
  from upload_failure_is_fatal [of ?x "[]" 2 "[]"] hx
  have ex: "filter is_failure (run ?x) = [SetFailed (upload_failed_message 2)]"
    by simp
  from upload_failure_is_fatal [of ?r "[]" 2 "''spawn ENOENT''"] hr
  have rej: "filter is_failure (run ?r) = [SetFailed ''spawn ENOENT'']"
    by simp
  from h(1,3) settled lib ex rej show ?thesis
    by (simp add: exec_rejection_message_def upload_failed_message_def two)
qed

text \<open>
  Claim C5. In every run whose inputs are accepted, whose upload exits with 0 and whose
  captured output holds no version id, the run is marked as failed exactly when upload-only
  mode is off. In upload-only mode it ends without a failure and without publishing
  \<open>version_id\<close>; in full mode the failure is the last thing it does. In both, no deploy is
  started.
\<close>

theorem version_id_miss_policy:
  "inputs_accepted w \<and> snd (w_upload w) = Exit 0
     \<and> parseVersionIdFromUpload (stdout_text (fst (w_upload w))) = None \<longrightarrow>
   (filter is_failure (run w) \<noteq> [] \<longleftrightarrow> \<not> upload_only w)
   \<and> (upload_only w \<longrightarrow>
        filter is_failure (run w) = [] \<and> filter (publishes ''version_id'') (run w) = [])
   \<and> (\<not> upload_only w \<longrightarrow>
        filter is_failure (run w) =
          [SetFailed ''Failed to parse Worker Version ID from wrangler versions upload output.'']
        \<and> last (run w) =
          SetFailed ''Failed to parse Worker Version ID from wrangler versions upload output.'')
   \<and> filter is_deploy (run w) = []"
proof (intro impI, elim conjE)
  assume ok: "inputs_accepted w" and ex: "snd (w_upload w) = Exit 0"
    and miss: "parseVersionIdFromUpload (stdout_text (fst (w_upload w))) = None"
  show "(filter is_failure (run w) \<noteq> [] \<longleftrightarrow> \<not> upload_only w)
   \<and> (upload_only w \<longrightarrow>
        filter is_failure (run w) = [] \<and> filter (publishes ''version_id'') (run w) = [])
   \<and> (\<not> upload_only w \<longrightarrow>
        filter is_failure (run w) =
          [SetFailed ''Failed to parse Worker Version ID from wrangler versions upload output.'']
        \<and> last (run w) =
          SetFailed ''Failed to parse Worker Version ID from wrangler versions upload output.'')
   \<and> filter is_deploy (run w) = []"
    by (simp add: run_accepted [OF ok] run_upload_no_id [OF ex miss])
qed

theorem version_id_miss_policy_witness:
  "inputs_accepted (example_world\<lparr>w_upload := ([Stdout ''Uploaded.''], Exit 0)\<rparr>)
   \<and> parseVersionIdFromUpload
        (stdout_text (fst (w_upload (example_world\<lparr>w_upload := ([Stdout ''Uploaded.''], Exit 0)\<rparr>)))) = None
   \<and> \<not> upload_only (example_world\<lparr>w_upload := ([Stdout ''Uploaded.''], Exit 0)\<rparr>)
   \<and> last (run (example_world\<lparr>w_upload := ([Stdout ''Uploaded.''], Exit 0)\<rparr>)) =
       SetFailed ''Failed to parse Worker Version ID from wrangler versions upload output.''
   \<and> filter is_deploy (run (example_world\<lparr>w_upload := ([Stdout ''Uploaded.''], Exit 0)\<rparr>)) = []
   \<and> upload_only (example_world\<lparr>w_inputs := example_inputs(''only_upload'' := ''true''),
                                  w_upload := ([Stdout ''Uploaded.''], Exit 0)\<rparr>)
   \<and> filter is_failure (run (example_world\<lparr>w_inputs := example_inputs(''only_upload'' := ''true''),
                                  w_upload := ([Stdout ''Uploaded.''], Exit 0)\<rparr>)) = []
   \<and> filter (publishes ''version_id'')
        (run (example_world\<lparr>w_inputs := example_inputs(''only_upload'' := ''true''),
                                  w_upload := ([Stdout ''Uploaded.''], Exit 0)\<rparr>)) = []
   \<and> filter is_deploy (run (example_world\<lparr>w_inputs := example_inputs(''only_upload'' := ''true''),
                                  w_upload := ([Stdout ''Uploaded.''], Exit 0)\<rparr>)) = []"
proof -
  let ?full = "example_world\<lparr>w_upload := ([Stdout ''Uploaded.''], Exit 0)\<rparr>"
  let ?only = "example_world\<lparr>w_inputs := example_inputs(''only_upload'' := ''true''),
                                  w_upload := ([Stdout ''Uploaded.''], Exit 0)\<rparr>"
  have miss: "parseVersionIdFromUpload ''Uploaded.'' = None"
    by (simp add: match_version_id_def js_startsWith_def version_label_def)
  have hf: "inputs_accepted ?full" "snd (w_upload ?full) = Exit 0"
    "parseVersionIdFromUpload (stdout_text (fst (w_upload ?full))) = None" "\<not> upload_only ?full"
    by (simp_all add: example_inputs_accepted example_upload_only stdout_text_def miss
        del: parseVersionIdFromUpload.simps)
  have ho: "inputs_accepted ?only" "snd (w_upload ?only) = Exit 0"
    "parseVersionIdFromUpload (stdout_text (fst (w_upload ?only))) = None" "upload_only ?only"
    by (simp_all add: example_inputs_accepted example_upload_only stdout_text_def miss
        del: parseVersionIdFromUpload.simps)
  from version_id_miss_policy [of ?full] hf
  have full: "last (run ?full) =
       SetFailed ''Failed to parse Worker Version ID from wrangler versions upload output.''
     \<and> filter is_deploy (run ?full) = []"
    by blast
  from version_id_miss_policy [of ?only] ho
  have only: "filter is_failure (run ?only) = [] \<and> filter (publishes ''version_id'') (run ?only) = []
     \<and> filter is_deploy (run ?only) = []"
    by blast
  from hf ho full only show ?thesis by blast
qed

section \<open>The config input\<close>

lemma run_without_config:
  "w_inputs w ''api_token'' \<noteq> [] \<and> w_inputs w ''wrangler_command'' \<noteq> []
     \<and> w_inputs w ''config'' = [] \<longrightarrow>
   run w = [SetFailed ''Input required and not supplied: config'']"
  by (simp add: run_def getInput_required_def Let_def catch_error_def)

lemma run_without_config_starts_nothing:
  assumes "w_inputs w ''config'' = []"
  shows "filter is_failure (run w) \<noteq> []" and "filter is_upload (run w) = []"
    and "filter is_deploy (run w) = []"
  using assms by (simp_all add: run_def getInput_required_def Let_def catch_error_def)

text \<open>
  Claim C7, amended. The config input is required. A run whose \<open>config\<close> input is not set
  is marked as failed and starts neither the upload nor the deploy; when the token and the
  command are set, all it does is report that the input is required and not supplied.
  Whenever the inputs are accepted, the upload is started with \<open>--config\<close> and the path as
  its third and fourth arguments, and so is the deploy, after the version id and \<open>-y\<close>,
  in every run that gets to it.
\<close>

theorem config_input_policy:
  "(w_inputs w ''config'' = [] \<longrightarrow>
      filter is_failure (run w) \<noteq> [] \<and> filter is_upload (run w) = []
      \<and> filter is_deploy (run w) = [])
   \<and> (w_inputs w ''api_token'' \<noteq> [] \<and> w_inputs w ''wrangler_command'' \<noteq> []
        \<and> w_inputs w ''config'' = [] \<longrightarrow>
      run w = [SetFailed ''Input required and not supplied: config''])
   \<and> (inputs_accepted w \<longrightarrow>
      filter is_upload (run w) =
        [Exec (js_trim (js_trim (w_inputs w ''wrangler_command'')))
           ([''versions'', ''upload'', ''--config'', js_trim (w_inputs w ''config'')]
            @ splitArgs (getInput (w_inputs w) ''upload_args'')
            @ [''--message='' @ renderedMessage_of w])
           (workingDirectory_of w) (Some (js_trim (w_inputs w ''api_token'')))])
   \<and> (inputs_accepted w \<and> snd (w_upload w) = Exit 0
        \<and> parseVersionIdFromUpload (stdout_text (fst (w_upload w))) = Some v
        \<and> \<not> upload_only w \<longrightarrow>
      filter is_deploy (run w) =
        [Exec (js_trim (js_trim (w_inputs w ''wrangler_command'')))
           ([''versions'', ''deploy'', v, ''-y'', ''--config'', js_trim (w_inputs w ''config'')]
            @ splitArgs (getInput (w_inputs w) ''deploy_args'')
            @ [''--message='' @ renderedMessage_of w])
           (workingDirectory_of w) (Some (js_trim (w_inputs w ''api_token'')))])"
  using run_without_config_starts_nothing [of w] run_without_config [of w]
    config_passed_to_upload [of w] config_passed_to_deploy [of w v]
  by blast

theorem config_input_policy_witness:
  "w_inputs (example_world\<lparr>w_inputs := example_inputs(''config'' := [])\<rparr>) ''api_token'' \<noteq> []
   \<and> w_inputs (example_world\<lparr>w_inputs := example_inputs(''config'' := [])\<rparr>) ''wrangler_command'' \<noteq> []
   \<and> w_inputs (example_world\<lparr>w_inputs := example_inputs(''config'' := [])\<rparr>) ''config'' = []
   \<and> run (example_world\<lparr>w_inputs := example_inputs(''config'' := [])\<rparr>) =
       [SetFailed ''Input required and not supplied: config'']
   \<and> filter is_upload (run (example_world\<lparr>w_inputs := example_inputs(''config'' := [])\<rparr>)) = []
   \<and> inputs_accepted example_world
   \<and> snd (w_upload example_world) = Exit 0
   \<and> parseVersionIdFromUpload (stdout_text (fst (w_upload example_world))) = Some ''0a1b-2c''
   \<and> \<not> upload_only example_world
   \<and> filter is_upload (run example_world) =
       [Exec ''npx wrangler''
          [''versions'', ''upload'', ''--config'', ''wrangler.toml'', ''--message=main@0123456: fix bug'']
          None (Some ''secret'')]
   \<and> filter is_deploy (run example_world) =
       [Exec ''npx wrangler''
          [''versions'', ''deploy'', ''0a1b-2c'', ''-y'', ''--config'', ''wrangler.toml'',
           ''--message=main@0123456: fix bug'']
          None (Some ''secret'')]"
proof -
  let ?w = "example_world\<lparr>w_inputs := example_inputs(''config'' := [])\<rparr>"
  have h: "w_inputs ?w ''api_token'' \<noteq> []" "w_inputs ?w ''wrangler_command'' \<noteq> []"
    "w_inputs ?w ''config'' = []"
    by (simp_all add: example_world_def example_inputs_def)
  from config_input_policy [of ?w "[]"] h
  have unset: "run ?w = [SetFailed ''Input required and not supplied: config'']
      \<and> filter is_upload (run ?w) = []"
    by blast
  have same: "example_world\<lparr>w_upload := w_upload example_world\<rparr> = example_world" by simp
  have ok: "inputs_accepted example_world" "\<not> upload_only example_world"
    using example_inputs_accepted(1) [of "w_upload example_world"]
      example_upload_only(1) [of "w_upload example_world"]
    by (simp_all add: same)
  have up: "snd (w_upload example_world) = Exit 0"
    by (simp add: example_world_def)
  have id: "parseVersionIdFromUpload (stdout_text (fst (w_upload example_world))) = Some ''0a1b-2c''"
    by code_simp
  have vals: "js_trim (js_trim (w_inputs example_world ''wrangler_command'')) = ''npx wrangler''"
    "js_trim (w_inputs example_world ''config'') = ''wrangler.toml''"
    "js_trim (w_inputs example_world ''api_token'') = ''secret''"
    "splitArgs (getInput (w_inputs example_world) ''upload_args'') = []"
    "splitArgs (getInput (w_inputs example_world) ''deploy_args'') = []"
    "workingDirectory_of example_world = None"
    "renderedMessage_of example_world = ''main@0123456: fix bug''"
    by code_simp+
  from config_input_policy [of example_world "''0a1b-2c''"] ok up id
  have "filter is_upload (run example_world) =
        [Exec (js_trim (js_trim (w_inputs example_world ''wrangler_command'')))
           ([''versions'', ''upload'', ''--config'', js_trim (w_inputs example_world ''config'')]
            @ splitArgs (getInput (w_inputs example_world) ''upload_args'')
            @ [''--message='' @ renderedMessage_of example_world])
           (workingDirectory_of example_world) (Some (js_trim (w_inputs example_world ''api_token'')))]
      \<and> filter is_deploy (run example_world) =
        [Exec (js_trim (js_trim (w_inputs example_world ''wrangler_command'')))
           ([''versions'', ''deploy'', ''0a1b-2c'', ''-y'', ''--config'',
             js_trim (w_inputs example_world ''config'')]
            @ splitArgs (getInput (w_inputs example_world) ''deploy_args'')
            @ [''--message='' @ renderedMessage_of example_world])
           (workingDirectory_of example_world) (Some (js_trim (w_inputs example_world ''api_token'')))]"
    by blast
  then have set: "filter is_upload (run example_world) =
       [Exec ''npx wrangler''
          [''versions'', ''upload'', ''--config'', ''wrangler.toml'', ''--message=main@0123456: fix bug'']
          None (Some ''secret'')]
     \<and> filter is_deploy (run example_world) =
       [Exec ''npx wrangler''
          [''versions'', ''deploy'', ''0a1b-2c'', ''-y'', ''--config'', ''wrangler.toml'',
           ''--message=main@0123456: fix bug'']
          None (Some ''secret'')]"
    unfolding vals by simp
  from h unset ok up id set show ?thesis by blast
qed

text \<open>
  Claim C7 as it is stated says that a run with the config input not set proceeds. In the
  example world without that input the run only reports the missing input: no upload and
  no deploy is started.
\<close>

theorem config_unset_counterexample:
  "run (example_world\<lparr>w_inputs := example_inputs(''config'' := [])\<rparr>) =
     [SetFailed ''Input required and not supplied: config'']
   \<and> filter is_upload (run (example_world\<lparr>w_inputs := example_inputs(''config'' := [])\<rparr>)) = []
   \<and> filter is_deploy (run (example_world\<lparr>w_inputs := example_inputs(''config'' := [])\<rparr>)) = []"
  by (simp add: run_def getInput_required_def Let_def catch_error_def example_world_def
      example_inputs_def)

chapter \<open>The renderer\<close>

section \<open>The match is the placeholder\<close>

lemma word_not_space: "is_word_char c \<Longrightarrow> \<not> is_space c"
  by (auto simp add: is_word_char_def is_space_def)

lemma brace_not_word: "\<not> is_word_char (CHR ''}'')" "\<not> is_space (CHR ''}'')"
  by (simp_all add: is_word_char_def is_space_def)

lemma space_not_word: "is_space c \<Longrightarrow> \<not> is_word_char c"
  using word_not_space by blast

lemma match_placeholder_iff:
  "match_placeholder s = Some (key, rest) \<longleftrightarrow> (\<exists>p. s = p @ rest \<and> is_placeholder p key)"
proof
  assume m: "match_placeholder s = Some (key, rest)"
  then obtain a b r0 where s: "s = a # b # r0"
    by (cases s; cases "tl s") (auto simp add: match_placeholder_def)
  let ?ws1 = "takeWhile is_space r0"
  let ?r1 = "dropWhile is_space r0"
  let ?rk = "dropWhile is_word_char ?r1"
  let ?ws2 = "takeWhile is_space ?rk"
  let ?r2 = "dropWhile is_space ?rk"
  from m s have ab: "a = CHR ''{''" "b = CHR ''{''"
    and key: "key = takeWhile is_word_char ?r1" and ne: "key \<noteq> []"
    and r2: "?r2 = CHR ''}'' # CHR ''}'' # rest"
    by (auto simp add: match_placeholder_def Let_def split: if_splits list.splits)
  have "r0 = ?ws1 @ ?r1" by simp
  also have "?r1 = key @ ?rk" by (simp add: key)
  also have "?rk = ?ws2 @ ?r2" by simp
  finally have "s = (''{{'' @ ?ws1 @ key @ ?ws2 @ ''}}'') @ rest"
    by (simp add: s ab r2)
  moreover have "list_all is_space ?ws1" "list_all is_space ?ws2" "list_all is_word_char key"
    by (auto simp add: key list_all_iff dest: set_takeWhileD)
  ultimately show "\<exists>p. s = p @ rest \<and> is_placeholder p key"
    using ne unfolding is_placeholder_def by blast
next
  assume "\<exists>p. s = p @ rest \<and> is_placeholder p key"
  then obtain ws1 ws2 where s: "s = CHR ''{'' # CHR ''{'' # ws1 @ key @ ws2 @ CHR ''}'' # CHR ''}'' # rest"
    and ws1: "list_all is_space ws1" and ne: "key \<noteq> []"
    and key: "list_all is_word_char key" and ws2: "list_all is_space ws2"
    unfolding is_placeholder_def by auto
  let ?tail = "ws2 @ CHR ''}'' # CHR ''}'' # rest"
  from ne key have "\<not> is_space (hd (key @ ?tail))"
    by (cases key) (simp_all add: word_not_space)
  with ne have "key @ ?tail = [] \<or> \<not> is_space (hd (key @ ?tail))" by simp
  from span_exact(2) [OF ws1 this]
  have d1: "dropWhile is_space (ws1 @ key @ ?tail) = key @ ?tail" .
  have "\<not> is_word_char (hd ?tail)"
    using ws2 by (cases ws2) (simp_all add: brace_not_word space_not_word)
  then have t: "?tail = [] \<or> \<not> is_word_char (hd ?tail)" by simp
  from span_exact [OF key t]
  have tk: "takeWhile is_word_char (key @ ?tail) = key"
    and dk: "dropWhile is_word_char (key @ ?tail) = ?tail" .
  have "CHR ''}'' # CHR ''}'' # rest = [] \<or> \<not> is_space (hd (CHR ''}'' # CHR ''}'' # rest))"
    by (simp add: brace_not_word)
  from span_exact(2) [OF ws2 this]
  have d2: "dropWhile is_space ?tail = CHR ''}'' # CHR ''}'' # rest" .
  show "match_placeholder s = Some (key, rest)"
    using ne by (simp add: match_placeholder_def s d1 tk dk d2)
qed

section \<open>What the renderer does with placeholders and with other text\<close>

lemma renderTemplate_placeholder:
  assumes "is_placeholder p key"
  shows "renderTemplate (p @ rest) context = placeholder_value context key @ renderTemplate rest context"
proof -
  from assms have m: "match_placeholder (p @ rest) = Some (key, rest)"
    by (auto simp add: match_placeholder_iff)
  from assms obtain c cs where "p @ rest = c # cs"
    by (cases "p @ rest") (auto simp add: is_placeholder_def)
  with m show ?thesis by simp
qed

lemma renderTemplate_literal:
  assumes "\<not> (\<exists>p key rest. c # cs = p @ rest \<and> is_placeholder p key)"
  shows "renderTemplate (c # cs) context = c # renderTemplate cs context"
proof -
  have "match_placeholder (c # cs) = None"
  proof (cases "match_placeholder (c # cs)")
    case None
    then show ?thesis .
  next
    case (Some kr)
    then have "match_placeholder (c # cs) = Some (fst kr, snd kr)" by simp
    then have "\<exists>p. c # cs = p @ snd kr \<and> is_placeholder p (fst kr)"
      by (simp only: match_placeholder_iff)
    with assms show ?thesis by blast
  qed
  then show ?thesis by simp
qed

lemma renderTemplate_no_placeholder:
  assumes "\<not> has_placeholder t"
  shows "renderTemplate t context = t"
  using assms
proof (induction t)
  case Nil
  then show ?case by simp
next
  case (Cons c cs)
  have here: "\<not> (\<exists>p key rest. c # cs = p @ rest \<and> is_placeholder p key)"
  proof
    assume "\<exists>p key rest. c # cs = p @ rest \<and> is_placeholder p key"
    then obtain p key rest where "c # cs = [] @ p @ rest" "is_placeholder p key" by auto
    with Cons.prems show False unfolding has_placeholder_def by blast
  qed
  have "\<not> has_placeholder cs"
  proof
    assume "has_placeholder cs"
    then obtain pre p key post where "cs = pre @ p @ post" "is_placeholder p key"
      unfolding has_placeholder_def by blast
    then have "c # cs = (c # pre) @ p @ post \<and> is_placeholder p key" by simp
    with Cons.prems show False unfolding has_placeholder_def by blast
  qed
  with Cons.IH renderTemplate_literal [OF here] show ?case by simp
qed

lemma placeholder_value_own:
  "context key = Some (Some v) \<Longrightarrow> placeholder_value context key = v"
  "context key = Some None \<Longrightarrow> placeholder_value context key = []"
  by (simp_all add: placeholder_value_def)

lemma placeholder_value_absent:
  assumes "context key = None" and "key \<notin> set inherited_names"
  shows "placeholder_value context key = []"
proof -
  from assms(2) have "map_of object_prototype key = None"
    by (simp add: inherited_names_def map_of_eq_None_iff)
  with assms(1) show ?thesis by (simp add: placeholder_value_def)
qed

lemma renderTemplate_examples:
  "renderTemplate ''{{x}}'' Map.empty = []"
  "renderTemplate ''{{x}}'' [''x'' \<mapsto> Some ''a''] = ''a''"
  "renderTemplate ''no vars'' context = ''no vars''"
  "renderTemplate ''v={{ version_id }};'' (preTemplateContext metadata) = ''v=;''"
  by (simp_all add: match_placeholder_def placeholder_value_def object_prototype_def
      is_space_def is_word_char_def preTemplateContext_def)

text \<open>
  Claim C1 at the template \<open>{{constructor}}\<close>. The name is made of letters, and the context
  of the run (like the empty context) has no key of that name, so the claim, and the comment
  above \<open>renderTemplate\<close> (unknown variables are rendered as empty strings), give the
  empty string. \<open>context[key]\<close> finds the property that every object inherits, which is
  not \<open>undefined\<close>, and the renderer puts its text in the message. The same happens for
  each of \<open>inherited_names\<close>. For every other name the claim holds: lemmas
  \<open>renderTemplate_placeholder\<close>, \<open>placeholder_value_own\<close>,
  \<open>placeholder_value_absent\<close>, \<open>renderTemplate_literal\<close> and
  \<open>renderTemplate_no_placeholder\<close>.
\<close>

theorem renderTemplate_inherited_property:
  "renderTemplate ''{{constructor}}'' (preTemplateContext metadata) =
     ''function Object() { [native code] }''
   \<and> preTemplateContext metadata ''constructor'' = None
   \<and> renderTemplate ''{{constructor}}'' Map.empty = ''function Object() { [native code] }''"
  by (simp add: match_placeholder_def placeholder_value_def object_prototype_def
      is_space_def is_word_char_def preTemplateContext_def)

end
